theory Spec2Isabelle
  imports Main "HOL-Library.Sublist" "HOL-Library.Word"
begin

section \<open>Python values, exceptions and strings\<close>

text \<open>
  The exceptions that the three source files raise themselves, and the ones that the
  library calls they make can raise. \<open>CancelledError\<close> and \<open>KeyboardInterrupt\<close> derive
  from \<open>BaseException\<close> only, every other one from \<open>Exception\<close>: the difference decides
  which \<open>except Exception\<close> handler catches them.
\<close>

datatype py_exc =
    RuntimeError string
  | TimeoutError string
  | PWTimeoutError
  | AttributeError
  | TypeError
  | IndexError
  | KeyError string
  | ValueError string
  | FileNotFoundError string
  | OSError string
  | JSONDecodeError
  | APIError string
  | CancelledError
  | KeyboardInterrupt

fun is_Exception :: "py_exc \<Rightarrow> bool" where
  "is_Exception CancelledError = False"
| "is_Exception KeyboardInterrupt = False"
| "is_Exception _ = True"

text \<open>
  What \<open>json.loads\<close> returns: \<open>None\<close>, a bool, an int, a float, a str, a list or a dict.
  A dict is kept as the list of its items (the keys are distinct, \<open>json.loads\<close> keeps the
  last value of a repeated key before the dict reaches this code). Of a float only its
  truth value is ever used, so it is kept as a mantissa and an exponent, or as one of the
  three special values.
\<close>

datatype py_float = Finite int int | Infinity bool | NaN

datatype json =
    JNull
  | JBool bool
  | JInt int
  | JFloat py_float
  | JStr string
  | JArr "json list"
  | JObj "(string \<times> json) list"

text \<open>\<open>d.get(k)\<close>: the value, or \<open>None\<close> for a missing key.\<close>

definition dict_get :: "(string \<times> json) list \<Rightarrow> string \<Rightarrow> json" where
  "dict_get d k = (case map_of d k of None \<Rightarrow> JNull | Some v \<Rightarrow> v)"

text \<open>\<open>k in d\<close> for a dict \<open>d\<close>.\<close>

definition dict_has :: "(string \<times> json) list \<Rightarrow> string \<Rightarrow> bool" where
  "dict_has d k = (k \<in> fst ` set d)"

text \<open>\<open>v in xs\<close> for a list \<open>xs\<close> of strings: only a str equals a str.\<close>

fun py_in :: "json \<Rightarrow> string list \<Rightarrow> bool" where
  "py_in (JStr s) xs = (s \<in> set xs)"
| "py_in _ xs = False"

text \<open>The truth value of a Python object, as \<open>not v\<close> and \<open>v or d\<close> take it.\<close>

fun truthy :: "json \<Rightarrow> bool" where
  "truthy JNull = False"
| "truthy (JBool b) = b"
| "truthy (JInt i) = (i \<noteq> 0)"
| "truthy (JFloat (Finite m e)) = (m \<noteq> 0)"
| "truthy (JFloat _) = True"
| "truthy (JStr s) = (s \<noteq> [])"
| "truthy (JArr xs) = (xs \<noteq> [])"
| "truthy (JObj d) = (d \<noteq> [])"

text \<open>
  Strings are lists of characters; a character stands for a code point below 256. The
  whitespace of \<open>str.strip\<close> and \<open>str.split\<close> in that range: tab to carriage return, the
  four separators \<open>0x1c\<close> to \<open>0x1f\<close>, the space, \<open>0x85\<close> and \<open>0xa0\<close>.
\<close>

definition is_space :: "char \<Rightarrow> bool" where
  "is_space c = ((of_char c :: nat) \<in> {9, 10, 11, 12, 13, 28, 29, 30, 31, 32, 133, 160})"

definition strip :: "string \<Rightarrow> string" where
  "strip s = rev (dropWhile is_space (rev (dropWhile is_space s)))"

text \<open>
  \<open>s.split()\<close>: the maximal runs of non-whitespace characters, in order. \<open>cur\<close> is the run
  being read.
\<close>

fun split_from :: "string \<Rightarrow> string \<Rightarrow> string list" where
  "split_from cur [] = (if cur = [] then [] else [cur])"
| "split_from cur (c # cs) =
     (if is_space c then (if cur = [] then split_from [] cs else cur # split_from [] cs)
      else split_from (cur @ [c]) cs)"

definition split :: "string \<Rightarrow> string list" where
  "split s = split_from [] s"

text \<open>\<open>" ".join(ws)\<close>.\<close>

fun join_space :: "string list \<Rightarrow> string" where
  "join_space [] = []"
| "join_space [w] = w"
| "join_space (w # v # ws) = w @ CHR '' '' # join_space (v # ws)"

text \<open>\<open>s.lower()\<close> on the letters \<open>A\<close> to \<open>Z\<close>; \<open>s.endswith(t)\<close>.\<close>

definition lower_char :: "char \<Rightarrow> char" where
  "lower_char c =
     (if 65 \<le> (of_char c :: nat) \<and> (of_char c :: nat) \<le> 90 then char_of (of_char c + (32::nat)) else c)"

definition lower :: "string \<Rightarrow> string" where
  "lower s = map lower_char s"

definition endswith :: "string \<Rightarrow> string \<Rightarrow> bool" where
  "endswith s t = (length t \<le> length s \<and> drop (length s - length t) s = t)"

section \<open>Planner Oracle Adapter: \<open>_call_gpt5_mini_plan\<close>\<close>

definition allowed_actions :: "string list" where
  "allowed_actions =
     [''CLICK_DOWNLOAD_ANYWAY'', ''CLICK_DOWNLOAD_BUTTON'', ''OPEN_OVERFLOW_MENU_AND_DOWNLOAD'',
      ''REFRESH_AND_RETRY_SELECTORS'', ''FAIL_GIVE_UP'']"

definition fallback_invalid_action :: json where
  "fallback_invalid_action =
     JObj [(''action'', JStr ''REFRESH_AND_RETRY_SELECTORS''),
           (''rationale'', JStr ''Invalid action from model; fallback.'')]"

definition fallback_non_json :: json where
  "fallback_non_json =
     JObj [(''action'', JStr ''REFRESH_AND_RETRY_SELECTORS''),
           (''rationale'', JStr ''Non-JSON output; fallback.'')]"

text \<open>
  Lines 176 to 182. \<open>json_loads\<close> is the library's parser: \<open>None\<close> when it raises (a
  \<open>JSONDecodeError\<close> or a \<open>RecursionError\<close>, both caught by \<open>except Exception\<close>). A parsed
  value that is not a dict has no \<open>get\<close>: the \<open>AttributeError\<close> is caught by the same
  handler.
\<close>

definition plan_of_text :: "(string \<Rightarrow> json option) \<Rightarrow> string \<Rightarrow> json" where
  "plan_of_text json_loads text =
     (case json_loads text of
        None \<Rightarrow> fallback_non_json
      | Some (JObj d) \<Rightarrow>
          if \<not> py_in (dict_get d ''action'') allowed_actions then fallback_invalid_action
          else JObj d
      | Some _ \<Rightarrow> fallback_non_json)"

text \<open>
  The page observation sent with the request, and the two request channels. Each channel
  answers a request with the text of the response or raises: \<open>responses_create\<close> stands
  for \<open>client.responses.create(...).output_text\<close>, \<open>chat_create\<close> for
  \<open>client.chat.completions.create(...).choices[0].message.content\<close>, which is \<open>None\<close> for
  a response without content.
\<close>

record page_state =
  title :: string
  url :: string
  buttons :: "string list"

record oracle_client =
  responses_create :: "page_state \<Rightarrow> nat \<Rightarrow> py_exc + string"
  chat_create :: "page_state \<Rightarrow> nat \<Rightarrow> py_exc + string option"

text \<open>
  Lines 155 to 174: the text of the response. An exception of the first channel that
  \<open>except Exception\<close> catches sends the request through the second; whatever the second
  raises leaves the function, and so does the \<open>AttributeError\<close> of \<open>None.strip()\<close>.
\<close>

definition response_text :: "oracle_client \<Rightarrow> page_state \<Rightarrow> nat \<Rightarrow> py_exc + string" where
  "response_text client ps attempt =
     (case responses_create client ps attempt of
        Inr t \<Rightarrow> Inr (strip t)
      | Inl e \<Rightarrow>
          if is_Exception e then
            (case chat_create client ps attempt of
               Inl e2 \<Rightarrow> Inl e2
             | Inr None \<Rightarrow> Inl AttributeError
             | Inr (Some t) \<Rightarrow> Inr (strip t))
          else Inl e)"

definition call_gpt5_mini_plan ::
    "oracle_client \<Rightarrow> (string \<Rightarrow> json option) \<Rightarrow> page_state \<Rightarrow> nat \<Rightarrow> py_exc + json" where
  "call_gpt5_mini_plan client json_loads ps attempt =
     (case response_text client ps attempt of
        Inl e \<Rightarrow> Inl e
      | Inr text \<Rightarrow> Inr (plan_of_text json_loads text))"

section \<open>Page State Extractor: \<open>_collect_page_state\<close>\<close>

text \<open>
  What the browser answers for one candidate element: each of the three queries returns
  or raises. \<open>get_attribute\<close> returns \<open>None\<close> for an element without the attribute.
\<close>

record element =
  is_visible :: "py_exc + bool"
  inner_text :: "py_exc + string"
  aria_label :: "py_exc + string option"

text \<open>
  The body of the scan loop for one element (lines 106 to 117): the label it appends, or
  \<open>None\<close> when the element is skipped. The bare \<open>except\<close> skips the element on any
  exception.
\<close>

definition label_of :: "element \<Rightarrow> string option" where
  "label_of el =
     (case is_visible el of
        Inl _ \<Rightarrow> None
      | Inr visible \<Rightarrow>
          if \<not> visible then None
          else
            (case inner_text el of
               Inl _ \<Rightarrow> None
             | Inr txt \<Rightarrow>
                 (case aria_label el of
                    Inl _ \<Rightarrow> None
                  | Inr a \<Rightarrow>
                      (let aria = (case a of None \<Rightarrow> [] | Some s \<Rightarrow> s);
                           cand = (if strip aria \<noteq> [] then strip aria else strip txt)
                       in if cand \<noteq> [] then Some (take 80 (join_space (split cand)))
                          else None))))"

text \<open>The loop \<open>for i in range(limit)\<close>, appending to \<open>button_texts\<close>.\<close>

fun scan_loop :: "element list \<Rightarrow> string list \<Rightarrow> string list" where
  "scan_loop [] button_texts = button_texts"
| "scan_loop (el # els) button_texts =
     scan_loop els (case label_of el of None \<Rightarrow> button_texts | Some c \<Rightarrow> button_texts @ [c])"

text \<open>
  \<open>list(dict.fromkeys(xs))\<close>: a dict keeps its keys in insertion order, and a key that
  is already there keeps its place.
\<close>

fun fromkeys_into :: "'a list \<Rightarrow> 'a list \<Rightarrow> 'a list" where
  "fromkeys_into keys [] = keys"
| "fromkeys_into keys (x # xs) = fromkeys_into (if x \<in> set keys then keys else keys @ [x]) xs"

definition dict_fromkeys :: "'a list \<Rightarrow> 'a list" where
  "dict_fromkeys xs = fromkeys_into [] xs"

text \<open>
  The first occurrences of a list, as the specification words it: the entries that no
  earlier entry equals, in their order.
\<close>

definition first_occurrences :: "'a list \<Rightarrow> 'a list" where
  "first_occurrences xs = map (\<lambda>i. xs ! i) (filter (\<lambda>i. xs ! i \<notin> set (take i xs)) [0..<length xs])"

text \<open>
  A page, as the extractor queries it: the title, the URL, and the elements that the
  locator matches, in document order (\<open>Inl\<close> when \<open>count\<close> raises).
\<close>

record page =
  page_title :: "py_exc + string"
  page_url :: "py_exc + string"
  locator :: "py_exc + element list"

definition scanned :: "element list \<Rightarrow> string list" where
  "scanned els = scan_loop (take (min (length els) 40) els) []"

definition collect_buttons :: "page \<Rightarrow> string list" where
  "collect_buttons pg =
     (case locator pg of
        Inl _ \<Rightarrow> []
      | Inr els \<Rightarrow> take 25 (dict_fromkeys (scanned els)))"

definition collect_page_state :: "page \<Rightarrow> page_state" where
  "collect_page_state pg =
     \<lparr> title = (case page_title pg of Inl _ \<Rightarrow> [] | Inr t \<Rightarrow> t),
       url = (case page_url pg of Inl _ \<Rightarrow> [] | Inr u \<Rightarrow> u),
       buttons = collect_buttons pg \<rparr>"

text \<open>
  A whitespace-collapsed string: every whitespace character in it is a single space, no
  two of them are adjacent, and it does not start with one.
\<close>

fun collapsed_from :: "bool \<Rightarrow> string \<Rightarrow> bool" where
  "collapsed_from after_space [] = True"
| "collapsed_from after_space (c # cs) =
     (if is_space c then c = CHR '' '' \<and> \<not> after_space \<and> collapsed_from True cs
      else collapsed_from False cs)"

definition collapsed :: "string \<Rightarrow> bool" where
  "collapsed s = collapsed_from True s"

section \<open>The persisted file name (lines 380 to 383)\<close>

text \<open>\<open>suggested_filename\<close> is \<open>None\<close> or a string; \<open>or\<close> replaces both \<open>None\<close> and \<open>""\<close>.\<close>

definition persisted_name :: "string option \<Rightarrow> string" where
  "persisted_name suggested_filename =
     (let suggested =
            (case suggested_filename of
               None \<Rightarrow> ''downloaded_doc.pdf''
             | Some s \<Rightarrow> if s = [] then ''downloaded_doc.pdf'' else s)
      in if \<not> endswith (lower suggested) ''.pdf'' then suggested @ ''.pdf'' else suggested)"

section \<open>Hashing: \<open>_sha256_file\<close>\<close>

type_synonym bytes = "8 word list"

text \<open>
  The hash object of \<open>hashlib\<close>: the fresh object, \<open>update\<close> and \<open>hexdigest\<close>. The library
  documents that repeated calls of \<open>update\<close> are equivalent to one call with the
  concatenation of the arguments; that is \<open>hash_object_law\<close>.
\<close>

record 'h hash_object =
  new :: 'h
  update :: "'h \<Rightarrow> bytes \<Rightarrow> 'h"
  hexdigest :: "'h \<Rightarrow> string"

definition hash_object_law :: "'h hash_object \<Rightarrow> bool" where
  "hash_object_law H =
     ((\<forall>h a b. update H (update H h a) b = update H h (a @ b)) \<and> (\<forall>h. update H h [] = h))"

text \<open>
  The loop \<open>for chunk in iter(lambda: f.read(n), b"")\<close> over a file whose unread bytes
  are \<open>rest\<close>: \<open>f.read(n)\<close> returns the next \<open>n\<close> bytes, fewer at the end of the file, and
  the loop stops at the first empty chunk.
\<close>

function read_loop :: "'h hash_object \<Rightarrow> nat \<Rightarrow> bytes \<Rightarrow> 'h \<Rightarrow> 'h" where
  "read_loop H n rest h =
     (let chunk = take n rest
      in if chunk = [] then h else read_loop H n (drop n rest) (update H h chunk))"
  by pat_completeness auto
termination
  by (relation "measure (\<lambda>(H, n, rest, h). length rest)") auto

definition sha256_file :: "'h hash_object \<Rightarrow> bytes \<Rightarrow> string" where
  "sha256_file H contents = hexdigest H (read_loop H (1024 * 1024) contents (new H))"

text \<open>The reference digest: one \<open>update\<close> with the whole contents.\<close>

definition reference_digest :: "'h hash_object \<Rightarrow> bytes \<Rightarrow> string" where
  "reference_digest H contents = hexdigest H (update H (new H) contents)"

text \<open>The digest of the same bytes fed in any other chunks.\<close>

definition digest_of_chunks :: "'h hash_object \<Rightarrow> bytes list \<Rightarrow> string" where
  "digest_of_chunks H chunks = hexdigest H (fold (\<lambda>c h. update H h c) chunks (new H))"

section \<open>The handoff record and the sandbox\<close>

record handoff_payload =
  status :: string
  file_path :: string
  file_name :: string
  source_url :: string
  sha256 :: string
  bytes :: nat
  downloaded_at_iso :: string
  notes' :: string
  extra :: "(string \<times> string) list"

text \<open>
  What is at \<open>HANDOFF_PATH\<close>: nothing, a record, or the remains of a write that
  \<open>open(..., "w")\<close> started by emptying the file and \<open>json.dump\<close> did not finish.
\<close>

datatype handoff_file = Absent | Written handoff_payload | Truncated

record sandbox =
  handoff :: handoff_file
  downloads :: "string \<rightharpoonup> bytes"

record download =
  suggested_filename :: "string option"
  content :: bytes

definition DOWNLOADS_DIR :: string where
  "DOWNLOADS_DIR = ''sandbox/downloads''"

definition HANDOFF_PATH :: string where
  "HANDOFF_PATH = ''sandbox/handoff.json''"

text \<open>\<open>os.path.join(a, b)\<close> for a directory \<open>a\<close> without a trailing slash.\<close>

definition path_join :: "string \<Rightarrow> string \<Rightarrow> string" where
  "path_join a b = (if b \<noteq> [] \<and> hd b = CHR ''/'' then b else a @ ''/'' @ b)"

text \<open>\<open>obj[key]\<close> for a string key: only a dict has one.\<close>

definition getitem :: "json \<Rightarrow> string \<Rightarrow> py_exc + json" where
  "getitem obj k =
     (case obj of
        JObj d \<Rightarrow> (case map_of d k of None \<Rightarrow> Inl (KeyError k) | Some v \<Rightarrow> Inr v)
      | _ \<Rightarrow> Inl TypeError)"

section \<open>One attempt: the body of \<open>DownloadAgent.run\<close>\<close>

datatype write_outcome = WriteOk | OpenFails py_exc | DumpFails py_exc

text \<open>
  What the world outside the process does during one attempt: for each interaction with
  the browser, the oracle and the file system, whether it returns (and what) or raises.
  \<open>try_click_download_anyway\<close> and \<open>try_click_download_button\<close> are the results of the two
  helper methods, which catch every exception themselves (the second is \<open>True\<close> when a
  locator is returned). \<open>elapsed_seconds\<close> is the wall-clock time the attempt takes.
\<close>

record attempt_env =
  launch :: "py_exc option"
  goto :: "py_exc option"
  observed :: page
  client :: oracle_client
  loads :: "string \<Rightarrow> json option"
  try_click_download_anyway :: bool
  try_click_download_button :: bool
  button_click :: "py_exc option"
  overflow_menu_download :: "py_exc + bool"
  reload :: "py_exc option"
  download_event :: "py_exc + download option"
  save_as :: "py_exc option"
  read_back :: "py_exc option"
  abspath :: "string \<Rightarrow> string"
  now_iso :: string
  handoff_write :: write_outcome
  browser_close :: "py_exc option"
  elapsed_seconds :: nat

text \<open>Lines 324 to 375: the dispatch on \<open>plan["action"]\<close>.\<close>

definition click_then_download :: "attempt_env \<Rightarrow> py_exc + download option" where
  "click_then_download env =
     (case button_click env of Some e \<Rightarrow> Inl e | None \<Rightarrow> download_event env)"

definition overflow_then_download :: "attempt_env \<Rightarrow> string \<Rightarrow> py_exc + download option" where
  "overflow_then_download env msg =
     (case overflow_menu_download env of
        Inl e \<Rightarrow> Inl e
      | Inr ok \<Rightarrow> if \<not> ok then Inl (RuntimeError msg) else download_event env)"

definition execute_plan :: "attempt_env \<Rightarrow> json \<Rightarrow> py_exc + download option" where
  "execute_plan env plan =
     (case getitem plan ''action'' of
        Inl e \<Rightarrow> Inl e
      | Inr action \<Rightarrow>
          if action = JStr ''CLICK_DOWNLOAD_ANYWAY'' then
            (if \<not> try_click_download_anyway env
             then Inl (RuntimeError ''Planner chose CLICK_DOWNLOAD_ANYWAY but button not available.'')
             else download_event env)
          else if action = JStr ''CLICK_DOWNLOAD_BUTTON'' then
            (if \<not> try_click_download_button env
             then Inl (RuntimeError ''Planner chose CLICK_DOWNLOAD_BUTTON but no button found.'')
             else click_then_download env)
          else if action = JStr ''OPEN_OVERFLOW_MENU_AND_DOWNLOAD'' then
            overflow_then_download env ''Overflow download failed.''
          else if action = JStr ''REFRESH_AND_RETRY_SELECTORS'' then
            (case reload env of
               Some e \<Rightarrow> Inl e
             | None \<Rightarrow>
                 if \<not> try_click_download_button env
                 then overflow_then_download env ''No download route found after refresh.''
                 else click_then_download env)
          else Inl (RuntimeError ''Planner chose FAIL_GIVE_UP.''))"

text \<open>Lines 392 to 405.\<close>

definition make_payload ::
    "'h hash_object \<Rightarrow> attempt_env \<Rightarrow> string \<Rightarrow> string \<Rightarrow> string \<Rightarrow> bytes \<Rightarrow> handoff_payload" where
  "make_payload H env src_url save_path suggested saved =
     \<lparr> status = ''success'',
       file_path = abspath env save_path,
       file_name = suggested,
       source_url = src_url,
       sha256 = sha256_file H saved,
       bytes = length saved,
       downloaded_at_iso = now_iso env,
       notes' = ''Downloaded via Playwright browser flow (no Google Drive API). Planner used gpt-5-mini.'',
       extra = [(''executor'', ''playwright-chromium''), (''reasoner'', ''gpt-5-mini'')] \<rparr>"

text \<open>
  Lines 380 to 413, from the resolved download to the return: the name, the save, the
  size and the digest read back, the record, the write of the handoff file.
\<close>

definition save_and_handoff ::
    "'h hash_object \<Rightarrow> attempt_env \<Rightarrow> string \<Rightarrow> download \<Rightarrow> sandbox
       \<Rightarrow> (py_exc + handoff_payload) \<times> sandbox" where
  "save_and_handoff H env src_url dl sb =
     (let suggested = persisted_name (suggested_filename dl);
          save_path = path_join DOWNLOADS_DIR suggested
      in case save_as env of
           Some e \<Rightarrow> (Inl e, sb)
         | None \<Rightarrow>
             (let sb1 = sb\<lparr>downloads := (downloads sb)(save_path \<mapsto> content dl)\<rparr>
              in case read_back env of
                   Some e \<Rightarrow> (Inl e, sb1)
                 | None \<Rightarrow>
                     (let payload = make_payload H env src_url save_path suggested (content dl)
                      in case handoff_write env of
                           OpenFails e \<Rightarrow> (Inl e, sb1)
                         | DumpFails e \<Rightarrow> (Inl e, sb1\<lparr>handoff := Truncated\<rparr>)
                         | WriteOk \<Rightarrow> (Inr payload, sb1\<lparr>handoff := Written payload\<rparr>))))"

text \<open>
  The \<open>try\<close> block, lines 296 to 413. The planner is always called with \<open>attempt=1\<close>.
  The \<open>except\<close> clause takes a screenshot, whose own failure is swallowed, and re-raises
  the same exception: it changes neither the outcome nor the sandbox.
\<close>

definition attempt_try ::
    "'h hash_object \<Rightarrow> attempt_env \<Rightarrow> string \<Rightarrow> sandbox \<Rightarrow> (py_exc + handoff_payload) \<times> sandbox" where
  "attempt_try H env src_url sb =
     (case goto env of
        Some e \<Rightarrow> (Inl e, sb)
      | None \<Rightarrow>
          (case call_gpt5_mini_plan (client env) (loads env) (collect_page_state (observed env)) 1 of
             Inl e \<Rightarrow> (Inl e, sb)
           | Inr plan \<Rightarrow>
               (case execute_plan env plan of
                  Inl e \<Rightarrow> (Inl e, sb)
                | Inr None \<Rightarrow> (Inl (RuntimeError ''Download did not start (no download object).''), sb)
                | Inr (Some dl) \<Rightarrow> save_and_handoff H env src_url dl sb)))"

text \<open>
  One call of the undecorated \<open>run\<close>: the browser is launched before the \<open>try\<close>, and the
  \<open>finally\<close> clause closes it whatever the \<open>try\<close> block did; an exception of
  \<open>browser.close()\<close> replaces the outcome.
\<close>

definition run_attempt ::
    "'h hash_object \<Rightarrow> attempt_env \<Rightarrow> string \<Rightarrow> sandbox \<Rightarrow> (py_exc + handoff_payload) \<times> sandbox" where
  "run_attempt H env src_url sb =
     (case launch env of
        Some e \<Rightarrow> (Inl e, sb)
      | None \<Rightarrow>
          (let (r, sb') = attempt_try H env src_url sb
           in case browser_close env of Some e \<Rightarrow> (Inl e, sb') | None \<Rightarrow> (r, sb')))"

section \<open>Time Guard\<close>

text \<open>
  The state of an \<open>asyncio\<close> task. A task that \<open>asyncio.create_task\<close> starts runs on its
  own: an exception that its coroutine raises ends the task and is stored in it, and
  reaches another coroutine only when that one awaits the task. \<open>run\<close> never awaits
  \<open>guard_task\<close>; it calls \<open>guard_task.cancel()\<close> on line 411, which does nothing to a task
  that has ended.
\<close>

datatype task_state = Pending | Raised py_exc | Cancelled

text \<open>
  \<open>_time_guard\<close> (lines 298 to 302) after its polls at the seconds \<open>0, 1, ..., t\<close>.
\<close>

fun time_guard :: "int \<Rightarrow> nat \<Rightarrow> task_state" where
  "time_guard max_seconds 0 =
     (if 0 > max_seconds then Raised (TimeoutError ''Agent A exceeded 10-minute limit (internal guard).'')
      else Pending)"
| "time_guard max_seconds (Suc t) =
     (case time_guard max_seconds t of
        Pending \<Rightarrow>
          if int (Suc t) > max_seconds
          then Raised (TimeoutError ''Agent A exceeded 10-minute limit (internal guard).'')
          else Pending
      | s \<Rightarrow> s)"

fun cancel :: "task_state \<Rightarrow> task_state" where
  "cancel Pending = Cancelled"
| "cancel s = s"

text \<open>
  One attempt together with its guard task: the outcome and the sandbox are those of
  \<open>run_attempt\<close>; the third component is the state of the guard task when the attempt
  ends (\<open>None\<close> when the launch fails, before the task is created).
\<close>

definition run_attempt_guarded ::
    "'h hash_object \<Rightarrow> attempt_env \<Rightarrow> string \<Rightarrow> int \<Rightarrow> sandbox
       \<Rightarrow> (py_exc + handoff_payload) \<times> sandbox \<times> task_state option" where
  "run_attempt_guarded H env src_url max_seconds sb =
     (let (r, sb') = run_attempt H env src_url sb;
          guard_task = time_guard max_seconds (elapsed_seconds env)
      in (r, sb',
          if launch env \<noteq> None then None
          else if isl (fst (attempt_try H env src_url sb)) then Some guard_task
          else Some (cancel guard_task)))"

section \<open>Retry/Backoff Controller: the \<open>@retry\<close> decorator of \<open>run\<close>\<close>

text \<open>
  The three policies of the decorator, as the \<open>tenacity\<close> library computes them:
  \<open>stop_after_attempt(n)\<close> stops once the attempt number reaches \<open>n\<close>;
  \<open>wait_exponential(multiplier, min, max)\<close> waits \<open>multiplier * 2 ** (attempt - 1)\<close>
  seconds, clamped into \<open>[max(0, min), max]\<close>; the default \<open>retry\<close> policy retries on
  instances of \<open>Exception\<close>.
\<close>

definition stop_after_attempt :: "nat \<Rightarrow> nat \<Rightarrow> bool" where
  "stop_after_attempt max_attempt_number attempt_number = (attempt_number \<ge> max_attempt_number)"

definition wait_exponential :: "int \<Rightarrow> int \<Rightarrow> int \<Rightarrow> nat \<Rightarrow> int" where
  "wait_exponential multiplier mn mx attempt_number =
     max (max 0 mn) (min (multiplier * 2 ^ (attempt_number - 1)) mx)"

text \<open>
  The retry loop with \<open>reraise=True\<close>: \<open>attempt n s\<close> is the \<open>n\<close>-th call of the wrapped
  function in state \<open>s\<close>. It returns the outcome, the number of attempts made, the waits
  slept between them and the final state.
\<close>

function retrying ::
    "(nat \<Rightarrow> 's \<Rightarrow> (py_exc + 'a) \<times> 's) \<Rightarrow> nat \<Rightarrow> int list \<Rightarrow> 's
       \<Rightarrow> (py_exc + 'a) \<times> nat \<times> int list \<times> 's" where
  "retrying attempt n slept s =
     (case attempt n s of
        (Inr r, s') \<Rightarrow> (Inr r, n, slept, s')
      | (Inl e, s') \<Rightarrow>
          if \<not> is_Exception e then (Inl e, n, slept, s')
          else if stop_after_attempt 3 n then (Inl e, n, slept, s')
          else retrying attempt (Suc n) (slept @ [wait_exponential 1 2 10 n]) s')"
  by pat_completeness auto
termination
  by (relation "measure (\<lambda>(attempt, n, slept, s). 3 - n)") (auto simp: stop_after_attempt_def)

text \<open>
  The decorated \<open>run\<close>: \<open>world n\<close> is what the world does during the \<open>n\<close>-th attempt.
  Each attempt is a call of the undecorated function with its guard task; the loop sees
  the outcome of the call, and the sandbox is what the call left.
\<close>

definition guarded_call ::
    "'h hash_object \<Rightarrow> attempt_env \<Rightarrow> string \<Rightarrow> int \<Rightarrow> sandbox
       \<Rightarrow> (py_exc + handoff_payload) \<times> sandbox" where
  "guarded_call H env src_url max_seconds sb =
     (case run_attempt_guarded H env src_url max_seconds sb of (r, sb', guard_task) \<Rightarrow> (r, sb'))"

definition run ::
    "'h hash_object \<Rightarrow> (nat \<Rightarrow> attempt_env) \<Rightarrow> string \<Rightarrow> int \<Rightarrow> sandbox
       \<Rightarrow> (py_exc + handoff_payload) \<times> nat \<times> int list \<times> sandbox" where
  "run H world src_url max_seconds sb =
     retrying (\<lambda>n s. guarded_call H (world n) src_url max_seconds s) 1 [] sb"

section \<open>The downstream consumer: \<open>QueryAgent.load_handoff\<close> and phase 2 of \<open>main\<close>\<close>

text \<open>
  The exception of line 63 of \<open>agent_b.py\<close> is a \<open>ValueError\<close> whose message ends in the
  rejected value; it is kept with the value itself.
\<close>

datatype load_error =
    Raises py_exc
  | InvalidFilePath json

text \<open>
  The world of the consumer: \<open>os_path_exists\<close> is \<open>os.path.exists\<close> on a Python value (a
  path, or whatever else the record holds); \<open>json_load\<close> opens the file at a path and
  parses it; \<open>build_index\<close> is the rest of \<open>index_document_from_handoff\<close> after the
  lookup of \<open>file_path\<close> (load the PDF, split, embed, index), \<open>None\<close> when it returns.
\<close>

record consumer_world =
  os_path_exists :: "json \<Rightarrow> py_exc + bool"
  json_load :: "string \<Rightarrow> py_exc + json"
  build_index :: "json \<Rightarrow> py_exc option"

definition required_fields :: "string list" where
  "required_fields =
     [''file_path'', ''file_name'', ''source_url'', ''sha256'', ''bytes'', ''downloaded_at_iso'']"

text \<open>
  \<open>k in data\<close> for a string \<open>k\<close>: a key of a dict, an element of a list, a substring of
  a str; any other value is not iterable.
\<close>

definition contains :: "json \<Rightarrow> string \<Rightarrow> py_exc + bool" where
  "contains data k =
     (case data of
        JObj d \<Rightarrow> Inr (dict_has d k)
      | JArr xs \<Rightarrow> Inr (JStr k \<in> set xs)
      | JStr s \<Rightarrow> Inr (sublist k s)
      | _ \<Rightarrow> Inl TypeError)"

text \<open>The loop of lines 57 to 59: the exception it raises, if any.\<close>

fun check_required :: "json \<Rightarrow> string list \<Rightarrow> py_exc option" where
  "check_required data [] = None"
| "check_required data (k # ks) =
     (case contains data k of
        Inl e \<Rightarrow> Some e
      | Inr present \<Rightarrow>
          if \<not> present then Some (ValueError (''handoff.json missing required field: '' @ k))
          else check_required data ks)"

definition load_handoff :: "consumer_world \<Rightarrow> string \<Rightarrow> load_error + json" where
  "load_handoff w handoff_path =
     (case os_path_exists w (JStr handoff_path) of
        Inl e \<Rightarrow> Inl (Raises e)
      | Inr found \<Rightarrow>
          if \<not> found then Inl (Raises (FileNotFoundError (''handoff.json not found at: '' @ handoff_path)))
          else
            (case json_load w handoff_path of
               Inl e \<Rightarrow> Inl (Raises e)
             | Inr data \<Rightarrow>
                 (case check_required data required_fields of
                    Some e \<Rightarrow> Inl (Raises e)
                  | None \<Rightarrow>
                      (case getitem data ''file_path'' of
                         Inl e \<Rightarrow> Inl (Raises e)
                       | Inr fp \<Rightarrow>
                           if \<not> truthy fp then Inl (InvalidFilePath fp)
                           else
                             (case os_path_exists w fp of
                                Inl e \<Rightarrow> Inl (Raises e)
                              | Inr ex \<Rightarrow> if \<not> ex then Inl (InvalidFilePath fp) else Inr data)))))"

definition index_document_from_handoff :: "consumer_world \<Rightarrow> json \<Rightarrow> py_exc option" where
  "index_document_from_handoff w handoff_rec =
     (case getitem handoff_rec ''file_path'' of
        Inl e \<Rightarrow> Some e
      | Inr fp \<Rightarrow> build_index w fp)"

text \<open>
  Phase 2 of \<open>main\<close> (lines 30 to 47 of \<open>main.py\<close>): it ends in \<open>sys.exit(1)\<close> with the
  exception it caught, goes on to the query loop, or lets an exception through that
  \<open>except Exception\<close> does not catch. The four \<open>print\<close> calls use \<open>handoff.get\<close>, which
  only a dict has.
\<close>

datatype phase2_result = Exit1 py_exc | QueryLoop | Uncaught py_exc

definition caught :: "py_exc \<Rightarrow> phase2_result" where
  "caught e = (if is_Exception e then Exit1 e else Uncaught e)"

definition main_phase2 :: "consumer_world \<Rightarrow> phase2_result" where
  "main_phase2 w =
     (case os_path_exists w (JStr HANDOFF_PATH) of
        Inl e \<Rightarrow> caught e
      | Inr found \<Rightarrow>
          if \<not> found
          then caught (FileNotFoundError (''Expected handoff.json at '' @ HANDOFF_PATH @ '' but not found.''))
          else
            (case json_load w HANDOFF_PATH of
               Inl e \<Rightarrow> caught e
             | Inr handoff_rec \<Rightarrow>
                 (case handoff_rec of
                    JObj d \<Rightarrow>
                      (case index_document_from_handoff w handoff_rec of
                         Some e \<Rightarrow> caught e
                       | None \<Rightarrow> QueryLoop)
                  | _ \<Rightarrow> caught AttributeError)))"

section \<open>Auxiliary notions for the statements\<close>

text \<open>A word of \<open>split\<close>: not empty and free of whitespace.\<close>

definition word_ok :: "string \<Rightarrow> bool" where
  "word_ok w = (w \<noteq> [] \<and> (\<forall>c \<in> set w. \<not> is_space c))"

text \<open>
  The state in which the retry loop makes its next attempt after \<open>j\<close> attempts that were
  all retried.
\<close>

fun state_after :: "(nat \<Rightarrow> 's \<Rightarrow> (py_exc + 'a) \<times> 's) \<Rightarrow> 's \<Rightarrow> nat \<Rightarrow> 's" where
  "state_after attempt s 0 = s"
| "state_after attempt s (Suc j) = snd (attempt (Suc j) (state_after attempt s j))"

text \<open>
  The hash object as the library documents it: it stands for the data fed to it so far,
  and \<open>hexdigest\<close> is the digest of that data. \<open>digest\<close> is the hash function itself
  (SHA-256 for \<open>hashlib.sha256\<close>).
\<close>

definition hashlib_object :: "(bytes \<Rightarrow> string) \<Rightarrow> bytes hash_object" where
  "hashlib_object digest = \<lparr> new = [], update = (\<lambda>h chunk. h @ chunk), hexdigest = digest \<rparr>"

section \<open>Scenarios\<close>

text \<open>
  Concrete worlds on which the properties below are exercised. The oracle answers with
  a JSON object that names one action; \<open>scenario_loads\<close> is \<open>json.loads\<close> on the answers
  that occur in the scenarios. The page shows one visible control labelled \<open>Download\<close>; the
  download suggests the name \<open>report\<close> and has three bytes. The digest of the scenarios
  writes two hexadecimal digits for each byte.
\<close>

definition quoted :: "string \<Rightarrow> string" where
  "quoted s = CHR 0x22 # s @ [CHR 0x22]"

definition plan_text :: "string \<Rightarrow> string" where
  "plan_text action =
     ''{'' @ quoted ''action'' @ '': '' @ quoted action @ '', '' @ quoted ''rationale'' @ '': ''
       @ quoted ''scenario'' @ ''}''"

definition plan_json :: "string \<Rightarrow> json" where
  "plan_json action = JObj [(''action'', JStr action), (''rationale'', JStr ''scenario'')]"

definition scenario_loads :: "string \<Rightarrow> json option" where
  "scenario_loads text =
     (if text = plan_text ''FAIL_GIVE_UP'' then Some (plan_json ''FAIL_GIVE_UP'')
      else if text = plan_text ''CLICK_DOWNLOAD_BUTTON'' then Some (plan_json ''CLICK_DOWNLOAD_BUTTON'')
      else None)"

definition hex_byte :: "8 word \<Rightarrow> string" where
  "hex_byte b = [''0123456789abcdef'' ! (unat b div 16), ''0123456789abcdef'' ! (unat b mod 16)]"

definition hex_dump :: "bytes \<Rightarrow> string" where
  "hex_dump data = concat (map hex_byte data)"

definition download_control :: element where
  "download_control =
     \<lparr> is_visible = Inr True, inner_text = Inr [], aria_label = Inr (Some ''Download'') \<rparr>"

definition drive_page :: page where
  "drive_page =
     \<lparr> page_title = Inr ''report - Google Drive'',
       page_url = Inr ''https://drive.example/file/d/1/view'',
       locator = Inr [download_control] \<rparr>"

definition scenario_env :: "string \<Rightarrow> attempt_env" where
  "scenario_env action =
     \<lparr> launch = None,
       goto = None,
       observed = drive_page,
       client = \<lparr> responses_create = (\<lambda>ps n. Inr (plan_text action)),
                  chat_create = (\<lambda>ps n. Inl (APIError ''not called'')) \<rparr>,
       loads = scenario_loads,
       try_click_download_anyway = False,
       try_click_download_button = True,
       button_click = None,
       overflow_menu_download = Inr False,
       reload = None,
       download_event = Inr (Some \<lparr> suggested_filename = Some ''report'', content = [1, 2, 3] \<rparr>),
       save_as = None,
       read_back = None,
       abspath = (\<lambda>p. ''/home/agent/'' @ p),
       now_iso = ''2025-01-01T00:00:00+00:00'',
       handoff_write = WriteOk,
       browser_close = None,
       elapsed_seconds = 5 \<rparr>"

text \<open>
  The same world, except that closing the browser raises after the \<open>try\<close> block has
  run.
\<close>

definition closing_fails_env :: attempt_env where
  "closing_fails_env =
     (scenario_env ''CLICK_DOWNLOAD_BUTTON'')
       \<lparr> browser_close := Some (APIError ''Browser.close: connection lost'') \<rparr>"

definition empty_sandbox :: sandbox where
  "empty_sandbox = \<lparr> handoff = Absent, downloads = Map.empty \<rparr>"

text \<open>A page with thirty visible controls, labelled \<open>x\<close>, \<open>xx\<close>, \<open>xxx\<close> and so on.\<close>

definition numbered_control :: "nat \<Rightarrow> element" where
  "numbered_control n =
     \<lparr> is_visible = Inr True, inner_text = Inr (replicate n CHR ''x''), aria_label = Inr None \<rparr>"

definition busy_page :: page where
  "busy_page =
     \<lparr> page_title = Inr ''busy'', page_url = Inr ''https://drive.example/busy'',
       locator = Inr (map numbered_control [1..<31]) \<rparr>"

text \<open>A page with twenty-six visible controls that all carry the label \<open>Download\<close>.\<close>

definition repetitive_page :: page where
  "repetitive_page =
     \<lparr> page_title = Inr ''repetitive'', page_url = Inr ''https://drive.example/rep'',
       locator = Inr (replicate 26 download_control) \<rparr>"

text \<open>
  The world of the consumer in which the handoff file holds a record without \<open>sha256\<close>
  whose \<open>file_path\<close> names an existing file that indexes without error; and the same
  world with a complete record.
\<close>

definition record_without_sha256 :: "(string \<times> json) list" where
  "record_without_sha256 =
     [(''status'', JStr ''success''), (''file_path'', JStr ''/home/agent/sandbox/downloads/report.pdf''),
      (''file_name'', JStr ''report.pdf''), (''source_url'', JStr ''https://drive.example/file/d/1/view''),
      (''bytes'', JInt 3), (''downloaded_at_iso'', JStr ''2025-01-01T00:00:00+00:00'')]"

definition complete_record :: "(string \<times> json) list" where
  "complete_record = record_without_sha256 @ [(''sha256'', JStr ''010203'')]"

definition consumer_with :: "(string \<times> json) list \<Rightarrow> consumer_world" where
  "consumer_with d =
     \<lparr> os_path_exists =
         (\<lambda>v. Inr (v = JStr HANDOFF_PATH \<or> v = JStr ''/home/agent/sandbox/downloads/report.pdf'')),
       json_load = (\<lambda>p. if p = HANDOFF_PATH then Inr (JObj d) else Inl (FileNotFoundError p)),
       build_index = (\<lambda>v. None) \<rparr>"

section \<open>Properties of the Planner Oracle Adapter\<close>

lemma py_in_iff: "py_in v xs \<longleftrightarrow> v \<in> JStr ` set xs"
  by (cases v) auto

text \<open>
  Whatever the parser makes of the text, the plan that leaves the adapter names one of
  the five allowed actions: only those reach the executor.
\<close>

lemma plan_of_text_action_allowed:
  "\<exists>s \<in> set allowed_actions. getitem (plan_of_text json_loads text) ''action'' = Inr (JStr s)"
proof (cases "json_loads text")
  case None
  then show ?thesis
    by (simp add: plan_of_text_def getitem_def fallback_non_json_def allowed_actions_def)
next
  case (Some v)
  show ?thesis
  proof (cases "\<exists>d. v = JObj d \<and> py_in (dict_get d ''action'') allowed_actions")
    case True
    then obtain d s where v: "v = JObj d" and s: "dict_get d ''action'' = JStr s"
      and m: "s \<in> set allowed_actions"
      by (auto simp: py_in_iff)
    from s have "map_of d ''action'' = Some (JStr s)"
      by (simp add: dict_get_def split: option.splits)
    with Some v s m show ?thesis
      by (auto simp: plan_of_text_def getitem_def py_in_iff)
  next
    case False
    with Some have "plan_of_text json_loads text = fallback_non_json
        \<or> plan_of_text json_loads text = fallback_invalid_action"
      by (cases v) (simp_all add: plan_of_text_def)
    then show ?thesis
      by (auto simp: getitem_def fallback_non_json_def fallback_invalid_action_def
          allowed_actions_def)
  qed
qed

text \<open>
  A response that names an allowed action is returned as it was parsed, whether or not
  it has a rationale: the rationale is never looked at.
\<close>

lemma valid_plan_returned_unchanged:
  "json_loads text = Some (JObj d) \<Longrightarrow> dict_get d ''action'' \<in> JStr ` set allowed_actions \<Longrightarrow>
   plan_of_text json_loads text = JObj d"
  by (simp add: plan_of_text_def py_in_iff)

text \<open>
  Claim C2. For every response text: if the parser raises on it, or parses it to a value
  that is not an object, or parses it to an object whose \<open>action\<close> is missing or is not
  one of the five allowed actions, the adapter returns a fallback plan whose action is
  \<open>REFRESH_AND_RETRY_SELECTORS\<close> and whose rationale is one of the two fallback
  rationales. Once a text has been obtained the adapter returns a plan and does not
  raise.
\<close>

theorem planner_contract_violation_gives_fallback:
  "(json_loads text = None \<longrightarrow> plan_of_text json_loads text = fallback_non_json)
   \<and> (\<forall>v. json_loads text = Some v \<and> (\<forall>d. v \<noteq> JObj d)
          \<longrightarrow> plan_of_text json_loads text = fallback_non_json)
   \<and> (\<forall>d. json_loads text = Some (JObj d) \<and> dict_get d ''action'' \<notin> JStr ` set allowed_actions
          \<longrightarrow> plan_of_text json_loads text = fallback_invalid_action)
   \<and> getitem fallback_non_json ''action'' = Inr (JStr ''REFRESH_AND_RETRY_SELECTORS'')
   \<and> getitem fallback_non_json ''rationale'' = Inr (JStr ''Non-JSON output; fallback.'')
   \<and> getitem fallback_invalid_action ''action'' = Inr (JStr ''REFRESH_AND_RETRY_SELECTORS'')
   \<and> getitem fallback_invalid_action ''rationale'' = Inr (JStr ''Invalid action from model; fallback.'')
   \<and> (\<forall>c ps n. response_text c ps n = Inr text
          \<longrightarrow> call_gpt5_mini_plan c json_loads ps n = Inr (plan_of_text json_loads text))"
proof -
  have a: "json_loads text = None \<longrightarrow> plan_of_text json_loads text = fallback_non_json"
    by (simp add: plan_of_text_def)
  have b: "\<forall>v. json_loads text = Some v \<and> (\<forall>d. v \<noteq> JObj d)
          \<longrightarrow> plan_of_text json_loads text = fallback_non_json"
    by (auto simp: plan_of_text_def split: json.splits)
  have c: "\<forall>d. json_loads text = Some (JObj d) \<and> dict_get d ''action'' \<notin> JStr ` set allowed_actions
          \<longrightarrow> plan_of_text json_loads text = fallback_invalid_action"
    by (simp add: plan_of_text_def py_in_iff)
  have d: "getitem fallback_non_json ''action'' = Inr (JStr ''REFRESH_AND_RETRY_SELECTORS'')"
    "getitem fallback_non_json ''rationale'' = Inr (JStr ''Non-JSON output; fallback.'')"
    "getitem fallback_invalid_action ''action'' = Inr (JStr ''REFRESH_AND_RETRY_SELECTORS'')"
    "getitem fallback_invalid_action ''rationale'' = Inr (JStr ''Invalid action from model; fallback.'')"
    by (simp_all add: getitem_def fallback_non_json_def fallback_invalid_action_def)
  have e: "\<forall>c ps n. response_text c ps n = Inr text
          \<longrightarrow> call_gpt5_mini_plan c json_loads ps n = Inr (plan_of_text json_loads text)"
    by (simp add: call_gpt5_mini_plan_def)
  from a b c d e show ?thesis by blast
qed

text \<open>
  The theorem at four responses: free text, a list, an object with an action outside
  the enumeration, an object without an action.
\<close>

theorem planner_contract_violation_witness:
  "plan_of_text (\<lambda>s. None) ''I would click the button'' = fallback_non_json
   \<and> plan_of_text (\<lambda>s. Some (JArr [JStr ''FAIL_GIVE_UP''])) ''x'' = fallback_non_json
   \<and> plan_of_text (\<lambda>s. Some (JObj [(''action'', JStr ''DELETE_EVERYTHING'')])) ''x''
       = fallback_invalid_action
   \<and> plan_of_text (\<lambda>s. Some (JObj [(''rationale'', JStr ''none'')])) ''x'' = fallback_invalid_action"
  using planner_contract_violation_gives_fallback [of "\<lambda>s. None" "''I would click the button''"]
    planner_contract_violation_gives_fallback [of "\<lambda>s. Some (JArr [JStr ''FAIL_GIVE_UP''])" "''x''"]
    planner_contract_violation_gives_fallback
      [of "\<lambda>s. Some (JObj [(''action'', JStr ''DELETE_EVERYTHING'')])" "''x''"]
    planner_contract_violation_gives_fallback
      [of "\<lambda>s. Some (JObj [(''rationale'', JStr ''none'')])" "''x''"]
  by (simp add: dict_get_def allowed_actions_def)

text \<open>
  Claim C10. When the first request channel raises an exception that \<open>except Exception\<close>
  catches and the second channel raises too, the adapter raises the second channel's
  exception and returns no plan. A plan, the fallback plan included, is returned only
  for a text that one of the two channels delivered.
\<close>

theorem both_channels_raise_propagates:
  "(responses_create c ps n = Inl e1 \<and> is_Exception e1 \<and> chat_create c ps n = Inl e2
      \<longrightarrow> call_gpt5_mini_plan c json_loads ps n = Inl e2)
   \<and> (\<forall>plan. call_gpt5_mini_plan c json_loads ps n = Inr plan
        \<longrightarrow> (\<exists>t. (responses_create c ps n = Inr t \<or> chat_create c ps n = Inr (Some t))
                 \<and> plan = plan_of_text json_loads (strip t)))"
proof -
  have a: "responses_create c ps n = Inl e1 \<and> is_Exception e1 \<and> chat_create c ps n = Inl e2
      \<longrightarrow> call_gpt5_mini_plan c json_loads ps n = Inl e2"
    by (simp add: call_gpt5_mini_plan_def response_text_def)
  have b: "\<forall>plan. call_gpt5_mini_plan c json_loads ps n = Inr plan
        \<longrightarrow> (\<exists>t. (responses_create c ps n = Inr t \<or> chat_create c ps n = Inr (Some t))
                 \<and> plan = plan_of_text json_loads (strip t))"
    by (auto simp: call_gpt5_mini_plan_def response_text_def
        split: sum.splits option.splits if_splits)
  from a b show ?thesis by blast
qed

theorem both_channels_raise_witness:
  "call_gpt5_mini_plan
     \<lparr> responses_create = (\<lambda>ps n. Inl (APIError ''responses: 404'')),
       chat_create = (\<lambda>ps n. Inl (APIError ''chat: connection reset'')) \<rparr>
     (\<lambda>s. None) \<lparr> title = ''Drive'', url = ''https://drive.example/f'', buttons = [] \<rparr> 1
   = Inl (APIError ''chat: connection reset'')"
  using both_channels_raise_propagates
    [of "\<lparr> responses_create = (\<lambda>ps n. Inl (APIError ''responses: 404'')),
           chat_create = (\<lambda>ps n. Inl (APIError ''chat: connection reset'')) \<rparr>"
        "\<lparr> title = ''Drive'', url = ''https://drive.example/f'', buttons = [] \<rparr>" 1
        "APIError ''responses: 404''" "APIError ''chat: connection reset''" "\<lambda>s. None"]
  by simp

section \<open>Properties of the Page State Extractor\<close>

subsection \<open>Whitespace collapsing\<close>

lemma is_space_space: "is_space (CHR '' '')"
  by (simp add: is_space_def)

lemma collapsed_from_no_space:
  "\<forall>c \<in> set w. \<not> is_space c \<Longrightarrow>
   collapsed_from b (w @ rest) = (if w = [] then collapsed_from b rest else collapsed_from False rest)"
  by (induction w arbitrary: b) auto

lemma split_from_words:
  "\<forall>c \<in> set cur. \<not> is_space c \<Longrightarrow> \<forall>w \<in> set (split_from cur s). word_ok w"
proof (induction s arbitrary: cur)
  case Nil
  then show ?case by (simp add: word_ok_def)
next
  case (Cons c cs)
  show ?case
  proof (cases "is_space c")
    case True
    have e: "\<forall>w \<in> set (split_from [] cs). word_ok w" using Cons.IH [of "[]"] by simp
    show ?thesis
    proof (cases "cur = []")
      case True
      with \<open>is_space c\<close> e show ?thesis by simp
    next
      case False
      with \<open>is_space c\<close> e Cons.prems show ?thesis by (simp add: word_ok_def)
    qed
  next
    case False
    have "\<forall>a \<in> set (cur @ [c]). \<not> is_space a" using False Cons.prems by simp
    from Cons.IH [OF this] False show ?thesis by simp
  qed
qed

lemma collapsed_join_space:
  "\<forall>w \<in> set ws. word_ok w \<Longrightarrow> collapsed_from b (join_space ws)"
proof (induction ws arbitrary: b rule: join_space.induct)
  case 1
  then show ?case by simp
next
  case (2 w)
  then show ?case using collapsed_from_no_space [of w b "[]"] by (simp add: word_ok_def)
next
  case (3 w v ws)
  have "collapsed_from True (join_space (v # ws))" using 3 by simp
  then show ?case
    using 3(2) collapsed_from_no_space [of w b "CHR '' '' # join_space (v # ws)"]
    by (simp add: is_space_space word_ok_def)
qed

lemma collapsed_from_take: "collapsed_from b s \<Longrightarrow> collapsed_from b (take n s)"
proof (induction s arbitrary: b n)
  case Nil
  then show ?case by simp
next
  case (Cons c cs)
  show ?case
  proof (cases n)
    case 0
    then show ?thesis by simp
  next
    case (Suc m)
    with Cons show ?thesis by (cases "is_space c") simp_all
  qed
qed

lemma collapsed_label: "collapsed (take n (join_space (split s)))"
proof -
  have "\<forall>w \<in> set (split_from [] s). word_ok w" by (rule split_from_words) simp
  then have "collapsed_from True (join_space (split s))"
    unfolding split_def by (rule collapsed_join_space)
  then show ?thesis unfolding collapsed_def by (rule collapsed_from_take)
qed

lemma label_of_props:
  assumes "label_of el = Some l"
  shows "length l \<le> 80 \<and> collapsed l"
proof -
  from assms obtain cand where "l = take 80 (join_space (split cand))"
    by (auto simp: label_of_def Let_def split: sum.splits if_splits option.splits)
  then show ?thesis by (simp add: collapsed_label)
qed

subsection \<open>De-duplication keeps the first occurrences\<close>

lemma fromkeys_into_snoc:
  "fromkeys_into keys (xs @ [x]) =
     (if x \<in> set (fromkeys_into keys xs) then fromkeys_into keys xs else fromkeys_into keys xs @ [x])"
  by (induction xs arbitrary: keys) simp_all

lemma set_fromkeys_into: "set (fromkeys_into keys xs) = set keys \<union> set xs"
  by (induction xs arbitrary: keys) auto

lemma distinct_fromkeys_into: "distinct keys \<Longrightarrow> distinct (fromkeys_into keys xs)"
  by (induction xs arbitrary: keys) simp_all

lemma first_occurrences_snoc:
  "first_occurrences (xs @ [x]) = first_occurrences xs @ (if x \<in> set xs then [] else [x])"
proof -
  have f: "filter (\<lambda>i. (xs @ [x]) ! i \<notin> set (take i (xs @ [x]))) [0..<length xs]
         = filter (\<lambda>i. xs ! i \<notin> set (take i xs)) [0..<length xs]"
    by (rule filter_cong) (simp_all add: nth_append)
  have m: "map (\<lambda>i. (xs @ [x]) ! i) (filter (\<lambda>i. xs ! i \<notin> set (take i xs)) [0..<length xs])
         = map (\<lambda>i. xs ! i) (filter (\<lambda>i. xs ! i \<notin> set (take i xs)) [0..<length xs])"
    by (rule map_cong) (simp_all add: nth_append)
  show ?thesis
    unfolding first_occurrences_def using f m by simp
qed

lemma dict_fromkeys_first_occurrences: "dict_fromkeys xs = first_occurrences xs"
proof (induction xs rule: rev_induct)
  case Nil
  show ?case by (simp add: dict_fromkeys_def first_occurrences_def)
next
  case (snoc x xs)
  have "set (fromkeys_into [] xs) = set xs" by (simp add: set_fromkeys_into)
  with snoc show ?case
    unfolding dict_fromkeys_def by (simp add: fromkeys_into_snoc first_occurrences_snoc)
qed

lemma distinct_dict_fromkeys: "distinct (dict_fromkeys xs)"
  unfolding dict_fromkeys_def by (rule distinct_fromkeys_into) simp

lemma set_dict_fromkeys: "set (dict_fromkeys xs) = set xs"
  by (simp add: dict_fromkeys_def set_fromkeys_into)

lemma length_dict_fromkeys: "length (dict_fromkeys xs) = card (set xs)"
  using distinct_card [OF distinct_dict_fromkeys, of xs] by (simp add: set_dict_fromkeys)

subsection \<open>The scan\<close>

lemma scan_loop_map_filter: "scan_loop els acc = acc @ List.map_filter label_of els"
  by (induction els arbitrary: acc) (simp_all add: List.map_filter_simps split: option.splits)

lemma scanned_map_filter: "scanned els = List.map_filter label_of (take 40 els)"
  by (simp add: scanned_def scan_loop_map_filter min_def)

lemma set_scanned: "set (scanned els) = {l. \<exists>el \<in> set (take 40 els). label_of el = Some l}"
  by (force simp: scanned_map_filter List.map_filter_def image_iff)

text \<open>
  Claim C4, as the code has it. The extractor scans the first 40 candidates, keeps the
  label of every visible candidate that has one (whitespace-collapsed, cut to 80
  characters), removes repeated labels keeping the first occurrence of each, and
  returns the first 25 of what is left. So it returns as many labels as the scan found
  different ones, up to 25: exactly 25 when the scan yields more than 25 different
  labels. Every returned label has at most 80 characters, is whitespace-collapsed (a cut
  can leave one space at its end) and is the label of one of the first 40 candidates.
\<close>

theorem extractor_returns_first_25_distinct_labels:
  assumes "locator pg = Inr els"
  shows "collect_buttons pg = take 25 (first_occurrences (scanned els))
     \<and> scanned els = List.map_filter label_of (take 40 els)
     \<and> distinct (collect_buttons pg)
     \<and> length (collect_buttons pg) = min 25 (card (set (scanned els)))
     \<and> (25 < card (set (scanned els)) \<longrightarrow> length (collect_buttons pg) = 25)
     \<and> (\<forall>l \<in> set (collect_buttons pg).
           length l \<le> 80 \<and> collapsed l \<and> (\<exists>el \<in> set (take 40 els). label_of el = Some l))"
proof -
  have b: "collect_buttons pg = take 25 (dict_fromkeys (scanned els))"
    using assms by (simp add: collect_buttons_def)
  have d: "distinct (collect_buttons pg)"
    unfolding b by (rule distinct_take) (rule distinct_dict_fromkeys)
  have n: "length (collect_buttons pg) = min 25 (card (set (scanned els)))"
    unfolding b by (simp add: length_dict_fromkeys min.commute)
  have l: "\<forall>l \<in> set (collect_buttons pg).
           length l \<le> 80 \<and> collapsed l \<and> (\<exists>el \<in> set (take 40 els). label_of el = Some l)"
  proof
    fix l assume "l \<in> set (collect_buttons pg)"
    then have "l \<in> set (dict_fromkeys (scanned els))"
      unfolding b by (rule in_set_takeD)
    then have "l \<in> set (scanned els)" by (simp add: set_dict_fromkeys)
    then obtain el where el: "el \<in> set (take 40 els)" "label_of el = Some l"
      by (auto simp: set_scanned)
    with label_of_props [OF el(2)]
    show "length l \<le> 80 \<and> collapsed l \<and> (\<exists>el \<in> set (take 40 els). label_of el = Some l)"
      by blast
  qed
  from b d n l show ?thesis
    by (simp add: dict_fromkeys_first_occurrences scanned_map_filter)
qed

text \<open>
  The theorem on a page with thirty visible controls of thirty different labels: the
  extractor returns twenty-five labels.
\<close>

theorem extractor_returns_25_witness: "length (collect_buttons busy_page) = 25"
proof -
  have h1: "locator busy_page = Inr (map numbered_control [1..<31])"
    by (simp add: busy_page_def)
  have h2: "25 < card (set (scanned (map numbered_control [1..<31])))"
    by code_simp
  from extractor_returns_first_25_distinct_labels [OF h1] h2 show ?thesis by blast
qed

text \<open>
  Claim C4 as it is worded fails where qualifying labels repeat: twenty-six visible
  controls that all carry the label \<open>Download\<close> give a scan of more than 25 qualifying
  labels and one returned label.
\<close>

theorem extractor_repeated_labels_counterexample:
  "25 < length (scanned (replicate 26 download_control))
   \<and> locator repetitive_page = Inr (replicate 26 download_control)
   \<and> length (collect_buttons repetitive_page) \<noteq> 25"
  by code_simp

section \<open>Properties of the persisted file name\<close>

lemma lower_pdf: "lower ''.pdf'' = ''.pdf''"
  by (simp add: lower_def lower_char_def)

lemma endswith_append: "endswith (s @ t) t"
  by (simp add: endswith_def)

lemma lower_append: "lower (s @ t) = lower s @ lower t"
  by (simp add: lower_def)

lemma persisted_name_cases:
  "persisted_name sf =
     (let s = (case sf of None \<Rightarrow> ''downloaded_doc.pdf''
                | Some s \<Rightarrow> if s = [] then ''downloaded_doc.pdf'' else s)
      in if endswith (lower s) ''.pdf'' then s else s @ ''.pdf'')"
  by (simp add: persisted_name_def Let_def)

text \<open>
  Claim C5, as the code has it. Whatever name the download suggests, the persisted name
  ends in \<open>.pdf\<close> when letter case is ignored: a suggested name that already ends in
  \<open>.pdf\<close> in any letter case is kept as it is, any other gets \<open>.pdf\<close> appended, and a
  missing or empty suggestion becomes \<open>downloaded_doc.pdf\<close>. The file is saved under
  that name in the downloads directory, and the record carries it as \<open>file_name\<close>.
\<close>

theorem persisted_name_ends_in_pdf_ignoring_case:
  "endswith (lower (persisted_name sf)) ''.pdf''
   \<and> (\<forall>s. sf = Some s \<and> s \<noteq> [] \<and> \<not> endswith (lower s) ''.pdf'' \<longrightarrow> persisted_name sf = s @ ''.pdf'')
   \<and> (\<forall>s. sf = Some s \<and> endswith (lower s) ''.pdf'' \<longrightarrow> persisted_name sf = s)
   \<and> (sf = None \<or> sf = Some [] \<longrightarrow> persisted_name sf = ''downloaded_doc.pdf'')
   \<and> (\<forall>H env src dl sb p sb'.
         suggested_filename dl = sf \<and> save_and_handoff H env src dl sb = (Inr p, sb')
         \<longrightarrow> file_name p = persisted_name sf
             \<and> downloads sb' (path_join DOWNLOADS_DIR (persisted_name sf)) = Some (content dl))"
proof -
  have a: "endswith (lower (persisted_name sf)) ''.pdf''"
    using endswith_append [of _ "''.pdf''"]
    by (auto simp: persisted_name_cases Let_def lower_append lower_pdf)
  have b: "\<forall>s. sf = Some s \<and> s \<noteq> [] \<and> \<not> endswith (lower s) ''.pdf''
      \<longrightarrow> persisted_name sf = s @ ''.pdf''"
    by (simp add: persisted_name_def)
  have c: "\<forall>s. sf = Some s \<and> endswith (lower s) ''.pdf'' \<longrightarrow> persisted_name sf = s"
    by (auto simp: persisted_name_def endswith_def lower_def)
  have d: "sf = None \<or> sf = Some [] \<longrightarrow> persisted_name sf = ''downloaded_doc.pdf''"
    by (auto simp: persisted_name_def endswith_def lower_def lower_char_def)
  have e: "\<forall>H env src dl sb p sb'.
         suggested_filename dl = sf \<and> save_and_handoff H env src dl sb = (Inr p, sb')
         \<longrightarrow> file_name p = persisted_name sf
             \<and> downloads sb' (path_join DOWNLOADS_DIR (persisted_name sf)) = Some (content dl)"
    by (auto simp: save_and_handoff_def Let_def make_payload_def
        split: option.splits write_outcome.splits)
  from a b c d e show ?thesis by blast
qed

theorem persisted_name_witness: "persisted_name (Some ''scan_0042'') = ''scan_0042.pdf''"
proof -
  have h: "\<not> endswith (lower ''scan_0042'') ''.pdf''" by code_simp
  have "persisted_name (Some ''scan_0042'') = ''scan_0042'' @ ''.pdf''"
    using persisted_name_ends_in_pdf_ignoring_case [of "Some ''scan_0042''"] h by blast
  then show ?thesis by simp
qed

text \<open>
  Claim C5 as it is worded fails for a suggested name that ends in the extension in
  upper case: it is persisted unchanged, and does not end in \<open>.pdf\<close>.
\<close>

theorem persisted_name_upper_case_counterexample:
  "persisted_name (Some ''REPORT.PDF'') = ''REPORT.PDF''
   \<and> \<not> endswith (persisted_name (Some ''REPORT.PDF'')) ''.pdf''"
  by code_simp

section \<open>Properties of the file hashing\<close>

declare read_loop.simps [simp del]

lemma read_loop_update:
  assumes law: "hash_object_law H" and n: "0 < n"
  shows "read_loop H n rest h = update H h rest"
proof (induction rest arbitrary: h rule: length_induct)
  case (1 rest)
  show ?case
  proof (cases "rest = []")
    case True
    with law show ?thesis by (simp add: read_loop.simps [of H n "[]" h] hash_object_law_def)
  next
    case False
    with n have ne: "take n rest \<noteq> []" by simp
    from False n have "length (drop n rest) < length rest" by simp
    with 1 have "read_loop H n (drop n rest) (update H h (take n rest))
        = update H (update H h (take n rest)) (drop n rest)" by blast
    also have "\<dots> = update H h (take n rest @ drop n rest)"
      using law by (simp add: hash_object_law_def)
    finally show ?thesis using ne by (simp add: read_loop.simps [of H n rest h])
  qed
qed

lemma fold_update_concat:
  assumes law: "hash_object_law H"
  shows "fold (\<lambda>c h. update H h c) chunks h = update H h (concat chunks)"
proof (induction chunks arbitrary: h)
  case Nil
  with law show ?case by (simp add: hash_object_law_def)
next
  case (Cons c cs)
  with law show ?case by (simp add: hash_object_law_def)
qed

text \<open>The documented hash object obeys the law, whatever the hash function is.\<close>

lemma hashlib_object_law: "hash_object_law (hashlib_object digest)"
  by (simp add: hash_object_law_def hashlib_object_def)

text \<open>
  Claim C6. For a hash object that obeys the law of \<open>update\<close>, the digest that
  \<open>_sha256_file\<close> computes from chunks of 1 MiB is the digest of the whole contents in
  one piece, and the digest of the contents fed in any other chunks; equal contents give
  equal digests.
\<close>

theorem sha256_file_is_reference_digest:
  assumes "hash_object_law H"
  shows "sha256_file H contents = reference_digest H contents
     \<and> (\<forall>chunks. concat chunks = contents \<longrightarrow> digest_of_chunks H chunks = sha256_file H contents)
     \<and> (\<forall>other. other = contents \<longrightarrow> sha256_file H other = sha256_file H contents)"
  using assms
  by (simp add: sha256_file_def reference_digest_def digest_of_chunks_def read_loop_update
      fold_update_concat)

text \<open>
  The theorem for the documented hash object with the digest of the scenarios, on a file
  of five bytes: the digest of the file is the digest of its contents, and of the
  contents fed as \<open>[1, 2]\<close>, \<open>[]\<close>, \<open>[3, 4, 5]\<close>.
\<close>

theorem sha256_file_witness:
  "hash_object_law (hashlib_object hex_dump)
   \<and> sha256_file (hashlib_object hex_dump) [1, 2, 3, 4, 5] = hex_dump [1, 2, 3, 4, 5]
   \<and> digest_of_chunks (hashlib_object hex_dump) [[1, 2], [], [3, 4, 5]]
       = sha256_file (hashlib_object hex_dump) [1, 2, 3, 4, 5]"
  using sha256_file_is_reference_digest [OF hashlib_object_law, of hex_dump "[1, 2, 3, 4, 5]"]
    hashlib_object_law [of hex_dump]
  by (simp add: reference_digest_def hashlib_object_def)

section \<open>Properties of the Retry/Backoff Controller\<close>

declare retrying.simps [simp del]

lemma wait_exponential_bounds:
  "2 \<le> wait_exponential 1 2 10 n \<and> wait_exponential 1 2 10 n \<le> 10"
  by (simp add: wait_exponential_def)

lemma clamp_mono: "(a::int) \<le> b \<Longrightarrow> max lo (min a hi) \<le> max lo (min b hi)"
  by (auto simp: min_def max_def)

lemma wait_exponential_mono:
  assumes "n \<le> m"
  shows "wait_exponential 1 2 10 n \<le> wait_exponential 1 2 10 m"
proof -
  from assms have "n - 1 \<le> m - 1" by simp
  then have p: "(1::int) * 2 ^ (n - 1) \<le> 1 * 2 ^ (m - 1)"
    by (simp add: power_increasing)
  show ?thesis
    unfolding wait_exponential_def by (rule clamp_mono [OF p])
qed

lemma sorted_waits: "sorted (map (wait_exponential 1 2 10) [a..<b])"
proof -
  have "sorted_wrt (\<lambda>x y. wait_exponential 1 2 10 x \<le> wait_exponential 1 2 10 y) [a..<b]"
    by (rule sorted_wrt_mono_rel [where P = "(\<le>)"]) (simp_all add: wait_exponential_mono)
  then show ?thesis by (simp add: sorted_map)
qed

text \<open>
  What the loop returns when it starts its \<open>n\<close>-th attempt: the outcome and the state of
  the last attempt it makes, and the waits of the policy for the attempts before it,
  which all raised an \<open>Exception\<close>.
\<close>

lemma retrying_sound:
  assumes "retrying attempt n slept s = (r, k, sl, s')" and "1 \<le> n" and "n \<le> 3"
    and "s = state_after attempt s0 (n - 1)"
  shows "n \<le> k \<and> k \<le> 3
    \<and> sl = slept @ map (wait_exponential 1 2 10) [n..<k]
    \<and> attempt k (state_after attempt s0 (k - 1)) = (r, s')
    \<and> (\<forall>e. r = Inl e \<and> is_Exception e \<longrightarrow> k = 3)
    \<and> (\<forall>j. n \<le> j \<and> j < k \<longrightarrow>
          (\<exists>e. fst (attempt j (state_after attempt s0 (j - 1))) = Inl e \<and> is_Exception e))"
  using assms
proof (induction attempt n slept s rule: retrying.induct)
  case (1 attempt n slept s)
  obtain o1 s1 where a: "attempt n s = (o1, s1)" by force
  show ?case
  proof (cases o1)
    case (Inr v)
    with a have "retrying attempt n slept s = (Inr v, n, slept, s1)"
      by (simp add: retrying.simps [of attempt n slept s])
    with a Inr "1.prems" show ?thesis by auto
  next
    case (Inl e)
    show ?thesis
    proof (cases "is_Exception e \<and> \<not> stop_after_attempt 3 n")
      case False
      with a Inl have "retrying attempt n slept s = (Inl e, n, slept, s1)"
        by (auto simp: retrying.simps [of attempt n slept s])
      with a Inl False "1.prems" show ?thesis
        by (auto simp: stop_after_attempt_def)
    next
      case True
      then have n3: "Suc n \<le> 3" by (simp add: stop_after_attempt_def)
      from True a Inl "1.prems"(1)
      have r: "retrying attempt (Suc n) (slept @ [wait_exponential 1 2 10 n]) s1 = (r, k, sl, s')"
        by (simp add: retrying.simps [of attempt n slept s])
      from "1.prems"(2) obtain m where m: "n = Suc m" by (cases n) auto
      have s1: "s1 = state_after attempt s0 (Suc n - 1)"
        using a "1.prems"(4) m by simp
      have ih: "Suc n \<le> k \<and> k \<le> 3
        \<and> sl = (slept @ [wait_exponential 1 2 10 n]) @ map (wait_exponential 1 2 10) [Suc n..<k]
        \<and> attempt k (state_after attempt s0 (k - 1)) = (r, s')
        \<and> (\<forall>e. r = Inl e \<and> is_Exception e \<longrightarrow> k = 3)
        \<and> (\<forall>j. Suc n \<le> j \<and> j < k \<longrightarrow>
              (\<exists>e. fst (attempt j (state_after attempt s0 (j - 1))) = Inl e \<and> is_Exception e))"
        using "1.IH" [OF a [symmetric] Inl _ _ r _ n3 s1] True by simp
      have first: "fst (attempt n (state_after attempt s0 (n - 1))) = Inl e"
        using a Inl "1.prems"(4) by simp
      have up: "[n..<k] = n # [Suc n..<k]" using ih by (simp add: upt_conv_Cons)
      have later: "\<forall>j. n \<le> j \<and> j < k \<longrightarrow>
          (\<exists>e. fst (attempt j (state_after attempt s0 (j - 1))) = Inl e \<and> is_Exception e)"
      proof (intro allI impI)
        fix j assume j: "n \<le> j \<and> j < k"
        show "\<exists>e. fst (attempt j (state_after attempt s0 (j - 1))) = Inl e \<and> is_Exception e"
        proof (cases "j = n")
          case True
          with first \<open>is_Exception e \<and> \<not> stop_after_attempt 3 n\<close> show ?thesis by blast
        next
          case False
          with j have "Suc n \<le> j \<and> j < k" by simp
          with ih show ?thesis by blast
        qed
      qed
      from ih up later show ?thesis by simp
    qed
  qed
qed

text \<open>The guard task has no part in what a call returns or leaves in the sandbox.\<close>

lemma guarded_call_run_attempt: "guarded_call H env src m sb = run_attempt H env src sb"
  by (cases "run_attempt H env src sb") (simp add: guarded_call_def run_attempt_guarded_def Let_def)

lemma run_retrying:
  "run H world src m sb = retrying (\<lambda>n s. run_attempt H (world n) src s) 1 [] sb"
  by (simp add: run_def guarded_call_run_attempt)

lemma run_sound:
  assumes "run H world src m sb = (r, k, slept, sb')"
  shows "1 \<le> k \<and> k \<le> 3
    \<and> slept = map (wait_exponential 1 2 10) [1..<k]
    \<and> run_attempt H (world k) src
          (state_after (\<lambda>n s. run_attempt H (world n) src s) sb (k - 1)) = (r, sb')
    \<and> (\<forall>e. r = Inl e \<and> is_Exception e \<longrightarrow> k = 3)
    \<and> (\<forall>j. 1 \<le> j \<and> j < k \<longrightarrow>
          (\<exists>e. fst (run_attempt H (world j) src
                  (state_after (\<lambda>n s. run_attempt H (world n) src s) sb (j - 1))) = Inl e
               \<and> is_Exception e))"
  using retrying_sound [of "\<lambda>n s. run_attempt H (world n) src s" 1 "[]" sb r k slept sb' sb] assms
  by (simp add: run_retrying)

section \<open>The scenarios, evaluated\<close>

lemma scenario_env_sel:
  "launch (scenario_env a) = None"
  "goto (scenario_env a) = None"
  "loads (scenario_env a) = scenario_loads"
  "try_click_download_button (scenario_env a) = True"
  "button_click (scenario_env a) = None"
  "download_event (scenario_env a)
     = Inr (Some \<lparr> suggested_filename = Some ''report'', content = [1, 2, 3] \<rparr>)"
  "save_as (scenario_env a) = None"
  "read_back (scenario_env a) = None"
  "handoff_write (scenario_env a) = WriteOk"
  "browser_close (scenario_env a) = None"
  "elapsed_seconds (scenario_env a) = 5"
  by (simp_all add: scenario_env_def)

lemma strip_plan_text: "strip (plan_text action) = plan_text action"
  by (simp add: strip_def plan_text_def is_space_def)

lemma scenario_plan_give_up:
  "call_gpt5_mini_plan (client (scenario_env ''FAIL_GIVE_UP'')) scenario_loads ps n
     = Inr (plan_json ''FAIL_GIVE_UP'')"
  by (simp add: call_gpt5_mini_plan_def response_text_def scenario_env_def strip_plan_text
      plan_of_text_def scenario_loads_def plan_json_def dict_get_def allowed_actions_def)

lemma scenario_plan_click:
  "call_gpt5_mini_plan (client (scenario_env ''CLICK_DOWNLOAD_BUTTON'')) scenario_loads ps n
     = Inr (plan_json ''CLICK_DOWNLOAD_BUTTON'')"
proof -
  have ne: "plan_text ''CLICK_DOWNLOAD_BUTTON'' \<noteq> plan_text ''FAIL_GIVE_UP''"
    by (simp add: plan_text_def quoted_def)
  then show ?thesis
    by (simp add: call_gpt5_mini_plan_def response_text_def scenario_env_def strip_plan_text
        plan_of_text_def scenario_loads_def plan_json_def dict_get_def allowed_actions_def)
qed

lemma scenario_try_give_up:
  "attempt_try H (scenario_env ''FAIL_GIVE_UP'') src sb
     = (Inl (RuntimeError ''Planner chose FAIL_GIVE_UP.''), sb)"
proof -
  have x: "execute_plan (scenario_env ''FAIL_GIVE_UP'') (plan_json ''FAIL_GIVE_UP'')
      = Inl (RuntimeError ''Planner chose FAIL_GIVE_UP.'')"
    by (simp add: execute_plan_def getitem_def plan_json_def)
  show ?thesis
    by (simp add: attempt_try_def scenario_env_sel scenario_plan_give_up x)
qed

lemma scenario_attempt_give_up:
  "run_attempt H (scenario_env ''FAIL_GIVE_UP'') src sb
     = (Inl (RuntimeError ''Planner chose FAIL_GIVE_UP.''), sb)"
  by (simp add: run_attempt_def scenario_env_sel scenario_try_give_up)

text \<open>The record that a successful attempt of the scenarios writes.\<close>

lemma scenario_try_click:
  "attempt_try H (scenario_env ''CLICK_DOWNLOAD_BUTTON'') src sb
     = (Inr (make_payload H (scenario_env ''CLICK_DOWNLOAD_BUTTON'') src
               ''sandbox/downloads/report.pdf'' ''report.pdf'' [1, 2, 3]),
        sb\<lparr> downloads := (downloads sb)(''sandbox/downloads/report.pdf'' \<mapsto> [1, 2, 3]),
            handoff := Written (make_payload H (scenario_env ''CLICK_DOWNLOAD_BUTTON'') src
               ''sandbox/downloads/report.pdf'' ''report.pdf'' [1, 2, 3]) \<rparr>)"
proof -
  have x: "execute_plan (scenario_env ''CLICK_DOWNLOAD_BUTTON'') (plan_json ''CLICK_DOWNLOAD_BUTTON'')
      = Inr (Some \<lparr> suggested_filename = Some ''report'', content = [1, 2, 3] \<rparr>)"
    by (simp add: execute_plan_def getitem_def plan_json_def click_then_download_def
        scenario_env_sel)
  have nm: "persisted_name (Some ''report'') = ''report.pdf''"
    by code_simp
  have pj: "path_join DOWNLOADS_DIR ''report.pdf'' = ''sandbox/downloads/report.pdf''"
    by (simp add: path_join_def DOWNLOADS_DIR_def)
  have s: "save_and_handoff H (scenario_env ''CLICK_DOWNLOAD_BUTTON'') src
        \<lparr> suggested_filename = Some ''report'', content = [1, 2, 3] \<rparr> sb
     = (Inr (make_payload H (scenario_env ''CLICK_DOWNLOAD_BUTTON'') src
               ''sandbox/downloads/report.pdf'' ''report.pdf'' [1, 2, 3]),
        sb\<lparr> downloads := (downloads sb)(''sandbox/downloads/report.pdf'' \<mapsto> [1, 2, 3]),
            handoff := Written (make_payload H (scenario_env ''CLICK_DOWNLOAD_BUTTON'') src
               ''sandbox/downloads/report.pdf'' ''report.pdf'' [1, 2, 3]) \<rparr>)"
    by (simp add: save_and_handoff_def nm pj scenario_env_sel Let_def)
  show ?thesis
    by (simp add: attempt_try_def scenario_env_sel scenario_plan_click x s)
qed

lemma retrying_always_fails:
  assumes f: "\<And>n s. attempt n s = (Inl e, g s)" and e: "is_Exception e"
  shows "retrying attempt 1 [] s = (Inl e, 3, [2, 2], g (g (g s)))"
proof -
  have w: "wait_exponential 1 2 10 (Suc 0) = 2" "wait_exponential 1 2 10 (Suc (Suc 0)) = 2"
    by (simp_all add: wait_exponential_def)
  have 3: "\<And>s. retrying attempt (Suc (Suc (Suc 0))) [2, 2] s
      = (Inl e, Suc (Suc (Suc 0)), [2, 2], g s)"
    by (subst retrying.simps) (simp add: f e stop_after_attempt_def)
  have 2: "\<And>s. retrying attempt (Suc (Suc 0)) [2] s
      = retrying attempt (Suc (Suc (Suc 0))) [2, 2] (g s)"
    by (subst retrying.simps) (simp add: f e w stop_after_attempt_def)
  have 1: "retrying attempt (Suc 0) [] s = retrying attempt (Suc (Suc 0)) [2] (g s)"
    by (subst retrying.simps) (simp add: f e w stop_after_attempt_def)
  from 1 2 3 show ?thesis by (simp add: numeral_3_eq_3)
qed

lemma scenario_run_give_up:
  "run H (\<lambda>n. scenario_env ''FAIL_GIVE_UP'') src m sb
     = (Inl (RuntimeError ''Planner chose FAIL_GIVE_UP.''), 3, [2, 2], sb)"
  unfolding run_retrying
  by (rule retrying_always_fails [where g = "\<lambda>s. s"]) (simp_all add: scenario_attempt_give_up)

section \<open>The retry controller on a run\<close>

text \<open>
  Claim C3, as the code has it. A run makes between one and three attempts. The wait
  after the \<open>n\<close>-th failed attempt is \<open>2 ^ (n - 1)\<close> seconds brought into the range from 2
  to 10, so every wait lies between 2 and 10 seconds and the waits never decrease; the
  two waits that three attempts leave room for are both 2 seconds. The outcome of the
  run is the outcome of its last attempt, unchanged: a run that ends in an exception
  ends in the very exception of its last attempt, and when that is an \<open>Exception\<close> the
  last attempt was the third. Every earlier attempt raised an \<open>Exception\<close>.
\<close>

theorem retry_controller_bounds:
  assumes "run H world src m sb = (r, k, slept, sb')"
  shows "1 \<le> k \<and> k \<le> 3
    \<and> length slept = k - 1
    \<and> slept = map (wait_exponential 1 2 10) [1..<k]
    \<and> (\<forall>w \<in> set slept. 2 \<le> w \<and> w \<le> 10)
    \<and> sorted slept
    \<and> (\<forall>n. wait_exponential 1 2 10 n = max 2 (min (2 ^ (n - 1)) 10))
    \<and> (\<exists>s. run_attempt H (world k) src s = (r, sb'))
    \<and> (\<forall>e. r = Inl e \<and> is_Exception e \<longrightarrow> k = 3)
    \<and> (\<forall>j. 1 \<le> j \<and> j < k \<longrightarrow>
          (\<exists>s e. fst (run_attempt H (world j) src s) = Inl e \<and> is_Exception e))"
proof -
  note s = run_sound [OF assms]
  from s have sl: "slept = map (wait_exponential 1 2 10) [1..<k]" by blast
  have a: "1 \<le> k \<and> k \<le> 3" using s by blast
  have b: "length slept = k - 1" by (simp add: sl)
  have c: "\<forall>w \<in> set slept. 2 \<le> w \<and> w \<le> 10"
    using wait_exponential_bounds by (auto simp: sl)
  have d: "sorted slept" unfolding sl by (rule sorted_waits)
  have e: "\<forall>n. wait_exponential 1 2 10 n = max 2 (min (2 ^ (n - 1)) 10)"
    by (simp add: wait_exponential_def)
  have f: "\<exists>s. run_attempt H (world k) src s = (r, sb')" using s by blast
  have g: "\<forall>e. r = Inl e \<and> is_Exception e \<longrightarrow> k = 3" using s by blast
  have h: "\<forall>j. 1 \<le> j \<and> j < k \<longrightarrow>
          (\<exists>s e. fst (run_attempt H (world j) src s) = Inl e \<and> is_Exception e)"
    using s by blast
  from a b sl c d e f g h show ?thesis by blast
qed

text \<open>
  The theorem on the run in which the oracle chooses \<open>FAIL_GIVE_UP\<close> every time: three
  attempts, two waits of 2 seconds, and the exception of the third attempt.
\<close>

theorem retry_controller_witness:
  "run (hashlib_object hex_dump) (\<lambda>n. scenario_env ''FAIL_GIVE_UP'') ''https://drive.example/f''
       600 empty_sandbox
     = (Inl (RuntimeError ''Planner chose FAIL_GIVE_UP.''), 3, [2, 2], empty_sandbox)
   \<and> sorted [2, 2 :: int]"
proof -
  note r = scenario_run_give_up
    [of "hashlib_object hex_dump" "''https://drive.example/f''" 600 empty_sandbox]
  from retry_controller_bounds [OF r] have "sorted [2, 2 :: int]" by blast
  with r show ?thesis by blast
qed

text \<open>
  Claim C3 as it is worded has the waits double until the cap. They do not: the wait
  after the second failed attempt equals the wait after the first, 2 seconds, far from
  the cap of 10; these are the only two waits of a run.
\<close>

theorem backoff_not_doubling_counterexample:
  "wait_exponential 1 2 10 1 = 2
   \<and> wait_exponential 1 2 10 2 = 2
   \<and> wait_exponential 1 2 10 2 \<noteq> 2 * wait_exponential 1 2 10 1
   \<and> wait_exponential 1 2 10 1 < 10
   \<and> fst (snd (snd (run (hashlib_object hex_dump) (\<lambda>n. scenario_env ''FAIL_GIVE_UP'')
         ''https://drive.example/f'' 600 empty_sandbox))) = [2, 2]"
  by (simp add: wait_exponential_def scenario_run_give_up)

section \<open>The handoff record and the outcome of a run\<close>

lemma save_and_handoff_success:
  assumes "save_and_handoff H env src dl sb = (Inr p, sb')"
  shows "handoff sb' = Written p \<and> status p = ''success''"
  using assms
  by (auto simp: save_and_handoff_def Let_def make_payload_def
      split: option.splits write_outcome.splits)

lemma save_and_handoff_failure:
  assumes "save_and_handoff H env src dl sb = (Inl e, sb')"
    and "\<forall>x. handoff_write env \<noteq> DumpFails x"
  shows "handoff sb' = handoff sb"
  using assms
  by (auto simp: save_and_handoff_def Let_def split: option.splits write_outcome.splits)

lemma attempt_try_success:
  assumes "attempt_try H env src sb = (Inr p, sb')"
  shows "handoff sb' = Written p \<and> status p = ''success''"
  using assms save_and_handoff_success [of H env src _ sb p sb']
  by (auto simp: attempt_try_def split: option.splits sum.splits)

lemma attempt_try_failure:
  assumes "attempt_try H env src sb = (Inl e, sb')"
    and "\<forall>x. handoff_write env \<noteq> DumpFails x"
  shows "handoff sb' = handoff sb"
  using assms save_and_handoff_failure [of H env src _ sb e sb']
  by (auto simp: attempt_try_def split: option.splits sum.splits)

lemma run_attempt_success:
  assumes "run_attempt H env src sb = (Inr p, sb')"
  shows "handoff sb' = Written p \<and> status p = ''success''"
proof -
  obtain r s where t: "attempt_try H env src sb = (r, s)" by force
  with assms have "r = Inr p \<and> s = sb'"
    by (auto simp: run_attempt_def split: option.splits)
  with t attempt_try_success show ?thesis by blast
qed

lemma run_attempt_failure:
  assumes "run_attempt H env src sb = (Inl e, sb')"
    and "\<forall>x. handoff_write env \<noteq> DumpFails x" and "browser_close env = None"
  shows "handoff sb' = handoff sb"
proof (cases "launch env")
  case (Some x)
  with assms show ?thesis by (simp add: run_attempt_def)
next
  case None
  obtain r s where t: "attempt_try H env src sb = (r, s)" by force
  with assms None have "r = Inl e \<and> s = sb'"
    by (simp add: run_attempt_def)
  with t attempt_try_failure assms(2) show ?thesis by blast
qed

text \<open>An action of \<open>FAIL_GIVE_UP\<close> fails the attempt before anything is saved or written.\<close>

lemma fail_give_up_fails:
  "getitem plan ''action'' = Inr (JStr ''FAIL_GIVE_UP'') \<Longrightarrow>
   execute_plan env plan = Inl (RuntimeError ''Planner chose FAIL_GIVE_UP.'')"
  by (simp add: execute_plan_def)

text \<open>
  While the attempts fail, in a world where no handoff write breaks off and no teardown
  raises, the handoff location stays as it was.
\<close>

lemma handoff_unchanged_while_failing:
  assumes ok: "\<forall>n. 1 \<le> n \<and> n \<le> 3 \<longrightarrow>
                 (\<forall>x. handoff_write (world n) \<noteq> DumpFails x) \<and> browser_close (world n) = None"
    and fails: "\<forall>j. 1 \<le> j \<and> j < k \<longrightarrow>
          (\<exists>e. fst (run_attempt H (world j) src
                  (state_after (\<lambda>n s. run_attempt H (world n) src s) sb (j - 1))) = Inl e)"
    and k: "k \<le> 3"
  shows "i < k \<Longrightarrow> handoff (state_after (\<lambda>n s. run_attempt H (world n) src s) sb i) = handoff sb"
proof (induction i)
  case 0
  show ?case by simp
next
  case (Suc i)
  let ?s = "state_after (\<lambda>n s. run_attempt H (world n) src s) sb i"
  from Suc.prems fails obtain e where e: "fst (run_attempt H (world (Suc i)) src ?s) = Inl e"
    by fastforce
  then obtain s' where r: "run_attempt H (world (Suc i)) src ?s = (Inl e, s')"
    by (cases "run_attempt H (world (Suc i)) src ?s") simp
  from Suc.prems k ok
  have c1: "\<forall>x. handoff_write (world (Suc i)) \<noteq> DumpFails x"
    and c2: "browser_close (world (Suc i)) = None"
    by simp_all
  have "handoff s' = handoff ?s" by (rule run_attempt_failure [OF r c1 c2])
  with r Suc show ?case by simp
qed

text \<open>
  Claim C7, as the code has it. A run that succeeds leaves at the handoff location
  exactly the record it returns, with status \<open>success\<close>. In a world where no handoff
  write breaks off half-way and closing the browser does not raise, a failed attempt
  leaves the handoff location as it found it, and so does a run that fails, whether it
  gives up at once or exhausts its three attempts; an action of \<open>FAIL_GIVE_UP\<close> fails the
  attempt before the write.
\<close>

theorem handoff_written_iff_run_succeeds:
  assumes "run H world src m sb = (r, k, slept, sb')"
  shows "(\<forall>p. r = Inr p \<longrightarrow> handoff sb' = Written p \<and> status p = ''success'')
     \<and> ((\<forall>n. 1 \<le> n \<and> n \<le> 3 \<longrightarrow>
            (\<forall>x. handoff_write (world n) \<noteq> DumpFails x) \<and> browser_close (world n) = None)
         \<longrightarrow> (\<forall>e. r = Inl e \<longrightarrow> handoff sb' = handoff sb))
     \<and> (\<forall>env s e s'. run_attempt H env src s = (Inl e, s')
            \<and> (\<forall>x. handoff_write env \<noteq> DumpFails x) \<and> browser_close env = None
          \<longrightarrow> handoff s' = handoff s)
     \<and> (\<forall>env plan. getitem plan ''action'' = Inr (JStr ''FAIL_GIVE_UP'')
          \<longrightarrow> execute_plan env plan = Inl (RuntimeError ''Planner chose FAIL_GIVE_UP.''))"
proof -
  let ?st = "state_after (\<lambda>n s. run_attempt H (world n) src s) sb"
  note s = run_sound [OF assms]
  from s have last: "run_attempt H (world k) src (?st (k - 1)) = (r, sb')" by blast
  from s have k: "1 \<le> k" "k \<le> 3" by auto
  have a: "\<forall>p. r = Inr p \<longrightarrow> handoff sb' = Written p \<and> status p = ''success''"
    using last run_attempt_success by blast
  have b: "(\<forall>n. 1 \<le> n \<and> n \<le> 3 \<longrightarrow>
            (\<forall>x. handoff_write (world n) \<noteq> DumpFails x) \<and> browser_close (world n) = None)
         \<longrightarrow> (\<forall>e. r = Inl e \<longrightarrow> handoff sb' = handoff sb)"
  proof (intro impI allI)
    fix e
    assume ok: "\<forall>n. 1 \<le> n \<and> n \<le> 3 \<longrightarrow>
            (\<forall>x. handoff_write (world n) \<noteq> DumpFails x) \<and> browser_close (world n) = None"
      and e: "r = Inl e"
    have fails: "\<forall>j. 1 \<le> j \<and> j < k \<longrightarrow>
          (\<exists>e. fst (run_attempt H (world j) src (?st (j - 1))) = Inl e)"
      using s by blast
    from k have "k - 1 < k" by simp
    from handoff_unchanged_while_failing [OF ok fails k(2) this]
    have before: "handoff (?st (k - 1)) = handoff sb" .
    from ok k have c1: "\<forall>x. handoff_write (world k) \<noteq> DumpFails x"
      and c2: "browser_close (world k) = None"
      by simp_all
    have "handoff sb' = handoff (?st (k - 1))"
      by (rule run_attempt_failure [OF last [unfolded e] c1 c2])
    with before show "handoff sb' = handoff sb" by simp
  qed
  have c: "\<forall>env s e s'. run_attempt H env src s = (Inl e, s')
            \<and> (\<forall>x. handoff_write env \<noteq> DumpFails x) \<and> browser_close env = None
          \<longrightarrow> handoff s' = handoff s"
    using run_attempt_failure by blast
  have d: "\<forall>env plan. getitem plan ''action'' = Inr (JStr ''FAIL_GIVE_UP'')
          \<longrightarrow> execute_plan env plan = Inl (RuntimeError ''Planner chose FAIL_GIVE_UP.'')"
    using fail_give_up_fails by blast
  from a b c d show ?thesis by blast
qed

text \<open>
  The theorem on the run in which the oracle chooses \<open>FAIL_GIVE_UP\<close> every time: the run
  fails after three attempts and the handoff location is still empty.
\<close>

theorem handoff_written_iff_run_succeeds_witness:
  "fst (run (hashlib_object hex_dump) (\<lambda>n. scenario_env ''FAIL_GIVE_UP'')
        ''https://drive.example/f'' 600 empty_sandbox)
     = Inl (RuntimeError ''Planner chose FAIL_GIVE_UP.'')
   \<and> handoff empty_sandbox = Absent"
proof -
  note r = scenario_run_give_up
    [of "hashlib_object hex_dump" "''https://drive.example/f''" 600 empty_sandbox]
  have ok: "\<forall>n::nat. 1 \<le> n \<and> n \<le> 3 \<longrightarrow>
      (\<forall>x. handoff_write (scenario_env ''FAIL_GIVE_UP'') \<noteq> DumpFails x)
      \<and> browser_close (scenario_env ''FAIL_GIVE_UP'') = None"
    by (simp add: scenario_env_sel)
  from handoff_written_iff_run_succeeds [OF r] ok
  have "handoff empty_sandbox = handoff empty_sandbox" by blast
  with r show ?thesis by (simp add: empty_sandbox_def)
qed

text \<open>
  Claim C7 as it is worded fails when closing the browser raises. The attempt has
  written the record by then; the exception makes the attempt fail, and after three
  such attempts the run fails with the record of the last one at the handoff location.
\<close>

lemma attempt_try_ignores_browser_close:
  "attempt_try H (env\<lparr> browser_close := c \<rparr>) src sb = attempt_try H env src sb"
  by (simp add: attempt_try_def execute_plan_def click_then_download_def
      overflow_then_download_def save_and_handoff_def make_payload_def
      cong: option.case_cong sum.case_cong write_outcome.case_cong if_cong)

lemma closing_fails_attempt:
  "run_attempt H closing_fails_env src sb
     = (Inl (APIError ''Browser.close: connection lost''),
        sb\<lparr> downloads := (downloads sb)(''sandbox/downloads/report.pdf'' \<mapsto> [1, 2, 3]),
            handoff := Written (make_payload H (scenario_env ''CLICK_DOWNLOAD_BUTTON'') src
               ''sandbox/downloads/report.pdf'' ''report.pdf'' [1, 2, 3]) \<rparr>)"
proof -
  have t: "attempt_try H closing_fails_env src sb
      = attempt_try H (scenario_env ''CLICK_DOWNLOAD_BUTTON'') src sb"
    by (simp add: closing_fails_env_def attempt_try_ignores_browser_close)
  have l: "launch closing_fails_env = None"
    "browser_close closing_fails_env = Some (APIError ''Browser.close: connection lost'')"
    by (simp_all add: closing_fails_env_def scenario_env_sel)
  show ?thesis
    by (simp add: run_attempt_def l t scenario_try_click)
qed

theorem handoff_written_by_failed_run_counterexample:
  "fst (run (hashlib_object hex_dump) (\<lambda>n. closing_fails_env) ''https://drive.example/f'' 600
        empty_sandbox)
     = Inl (APIError ''Browser.close: connection lost'')
   \<and> handoff (snd (snd (snd (run (hashlib_object hex_dump) (\<lambda>n. closing_fails_env)
        ''https://drive.example/f'' 600 empty_sandbox))))
     = Written (make_payload (hashlib_object hex_dump) (scenario_env ''CLICK_DOWNLOAD_BUTTON'')
          ''https://drive.example/f'' ''sandbox/downloads/report.pdf'' ''report.pdf'' [1, 2, 3])
   \<and> handoff empty_sandbox = Absent"
proof -
  let ?p = "make_payload (hashlib_object hex_dump) (scenario_env ''CLICK_DOWNLOAD_BUTTON'')
      ''https://drive.example/f'' ''sandbox/downloads/report.pdf'' ''report.pdf'' [1, 2, 3]"
  let ?g = "\<lambda>s. s\<lparr> downloads := (downloads s)(''sandbox/downloads/report.pdf'' \<mapsto> [1, 2, 3]),
      handoff := Written ?p \<rparr>"
  have "retrying
      (\<lambda>n s. run_attempt (hashlib_object hex_dump) closing_fails_env ''https://drive.example/f'' s)
      1 [] empty_sandbox
    = (Inl (APIError ''Browser.close: connection lost''), 3, [2, 2],
       ?g (?g (?g empty_sandbox)))"
    by (rule retrying_always_fails [where g = ?g]) (simp_all add: closing_fails_attempt)
  then show ?thesis
    unfolding run_retrying by (simp add: empty_sandbox_def)
qed

section \<open>The Time Guard and the attempt it watches\<close>

lemma time_guard_fires:
  "time_guard m t =
     (if m < int t then Raised (TimeoutError ''Agent A exceeded 10-minute limit (internal guard).'')
      else Pending)"
  by (induction t) auto

text \<open>
  The outcome of an attempt and the sandbox it leaves are the same for every
  \<open>max_seconds\<close>.
\<close>

lemma guard_does_not_reach_attempt:
  "guarded_call H env src m sb = guarded_call H env src m' sb"
  by (simp add: guarded_call_run_attempt)

lemma retrying_first_succeeds:
  assumes "attempt 1 s = (Inr p, s')"
  shows "retrying attempt 1 [] s = (Inr p, 1, [], s')"
  using assms by (subst retrying.simps) simp

text \<open>
  Claim C1 on the code. The call \<open>run(url, max_seconds=1)\<close> in the world of the
  scenarios, where the oracle chooses \<open>CLICK_DOWNLOAD_BUTTON\<close>, every step succeeds and
  the attempt takes 5 seconds: the guard task ends with its \<open>TimeoutError\<close>, and the
  attempt is not preempted; it returns the record, which it has written to the handoff
  location, and the run succeeds at its first attempt without a wait.
\<close>

theorem time_guard_does_not_preempt:
  "1 < int (elapsed_seconds (scenario_env ''CLICK_DOWNLOAD_BUTTON''))
   \<and> snd (snd (run_attempt_guarded (hashlib_object hex_dump) (scenario_env ''CLICK_DOWNLOAD_BUTTON'')
        ''https://drive.example/f'' 1 empty_sandbox))
     = Some (Raised (TimeoutError ''Agent A exceeded 10-minute limit (internal guard).''))
   \<and> fst (run_attempt_guarded (hashlib_object hex_dump) (scenario_env ''CLICK_DOWNLOAD_BUTTON'')
        ''https://drive.example/f'' 1 empty_sandbox)
     = Inr (make_payload (hashlib_object hex_dump) (scenario_env ''CLICK_DOWNLOAD_BUTTON'')
          ''https://drive.example/f'' ''sandbox/downloads/report.pdf'' ''report.pdf'' [1, 2, 3])
   \<and> handoff (fst (snd (run_attempt_guarded (hashlib_object hex_dump)
        (scenario_env ''CLICK_DOWNLOAD_BUTTON'') ''https://drive.example/f'' 1 empty_sandbox)))
     = Written (make_payload (hashlib_object hex_dump) (scenario_env ''CLICK_DOWNLOAD_BUTTON'')
          ''https://drive.example/f'' ''sandbox/downloads/report.pdf'' ''report.pdf'' [1, 2, 3])
   \<and> fst (run (hashlib_object hex_dump) (\<lambda>n. scenario_env ''CLICK_DOWNLOAD_BUTTON'')
        ''https://drive.example/f'' 1 empty_sandbox)
     = Inr (make_payload (hashlib_object hex_dump) (scenario_env ''CLICK_DOWNLOAD_BUTTON'')
          ''https://drive.example/f'' ''sandbox/downloads/report.pdf'' ''report.pdf'' [1, 2, 3])
   \<and> fst (snd (run (hashlib_object hex_dump) (\<lambda>n. scenario_env ''CLICK_DOWNLOAD_BUTTON'')
        ''https://drive.example/f'' 1 empty_sandbox)) = 1"
proof -
  let ?H = "hashlib_object hex_dump"
  let ?env = "scenario_env ''CLICK_DOWNLOAD_BUTTON''"
  let ?p = "make_payload ?H ?env ''https://drive.example/f'' ''sandbox/downloads/report.pdf''
      ''report.pdf'' [1, 2, 3]"
  let ?sb = "empty_sandbox\<lparr> downloads :=
      (downloads empty_sandbox)(''sandbox/downloads/report.pdf'' \<mapsto> [1, 2, 3]),
      handoff := Written ?p \<rparr>"
  have t: "attempt_try ?H ?env ''https://drive.example/f'' empty_sandbox = (Inr ?p, ?sb)"
    by (rule scenario_try_click)
  have a: "run_attempt ?H ?env ''https://drive.example/f'' empty_sandbox = (Inr ?p, ?sb)"
    by (simp add: run_attempt_def scenario_env_sel t)
  have g: "run_attempt_guarded ?H ?env ''https://drive.example/f'' 1 empty_sandbox
      = (Inr ?p, ?sb, Some (Raised (TimeoutError ''Agent A exceeded 10-minute limit (internal guard).'')))"
    by (simp add: run_attempt_guarded_def a t scenario_env_sel time_guard_fires)
  have r: "run ?H (\<lambda>n. ?env) ''https://drive.example/f'' 1 empty_sandbox = (Inr ?p, 1, [], ?sb)"
    unfolding run_retrying by (rule retrying_first_succeeds) (rule a)
  show ?thesis
    by (simp add: g r scenario_env_sel)
qed

section \<open>Properties of the downstream consumer\<close>

lemma check_required_dict:
  "check_required (JObj d) ks =
     (case find (\<lambda>k. \<not> dict_has d k) ks of
        None \<Rightarrow> None
      | Some k \<Rightarrow> Some (ValueError (''handoff.json missing required field: '' @ k)))"
  by (induction ks) (simp_all add: contains_def)

lemma getitem_present: "dict_has d k \<Longrightarrow> getitem (JObj d) k = Inr (dict_get d k)"
  by (auto simp: getitem_def dict_get_def dict_has_def map_of_eq_None_iff split: option.splits)

lemma load_handoff_missing:
  assumes "os_path_exists w (JStr hp) = Inr True" and "json_load w hp = Inr (JObj d)"
    and "find (\<lambda>k. \<not> dict_has d k) required_fields = Some k"
  shows "load_handoff w hp = Inl (Raises (ValueError (''handoff.json missing required field: '' @ k)))"
  using assms by (simp add: load_handoff_def check_required_dict)

lemma load_handoff_complete:
  assumes "os_path_exists w (JStr hp) = Inr True" and "json_load w hp = Inr (JObj d)"
    and "\<forall>k \<in> set required_fields. dict_has d k"
  shows "load_handoff w hp =
     (if \<not> truthy (dict_get d ''file_path'') then Inl (InvalidFilePath (dict_get d ''file_path''))
      else case os_path_exists w (dict_get d ''file_path'') of
             Inl e \<Rightarrow> Inl (Raises e)
           | Inr ex \<Rightarrow> if \<not> ex then Inl (InvalidFilePath (dict_get d ''file_path''))
                       else Inr (JObj d))"
proof -
  from assms(3) have "find (\<lambda>k. \<not> dict_has d k) required_fields = None"
    by (simp add: find_None_iff)
  moreover from assms(3) have "getitem (JObj d) ''file_path'' = Inr (dict_get d ''file_path'')"
    by (intro getitem_present) (simp add: required_fields_def)
  ultimately show ?thesis
    using assms(1,2) by (simp add: load_handoff_def check_required_dict)
qed

lemma load_handoff_names_missing_field:
  assumes "os_path_exists w (JStr hp) = Inr True" and "json_load w hp = Inr (JObj d)"
    and "\<exists>k \<in> set required_fields. \<not> dict_has d k"
  shows "\<exists>k \<in> set required_fields. \<not> dict_has d k
           \<and> find (\<lambda>k. \<not> dict_has d k) required_fields = Some k
           \<and> load_handoff w hp
               = Inl (Raises (ValueError (''handoff.json missing required field: '' @ k)))"
proof -
  from assms(3) have "find (\<lambda>k. \<not> dict_has d k) required_fields \<noteq> None"
    by (auto simp: find_None_iff)
  then obtain k where k: "find (\<lambda>k. \<not> dict_has d k) required_fields = Some k" by blast
  then have "k \<in> set required_fields \<and> \<not> dict_has d k"
    by (auto simp: find_Some_iff)
  with load_handoff_missing [OF assms(1,2) k] k show ?thesis by blast
qed

text \<open>
  Claim C8. For a handoff file that exists and holds a record: if one of the six
  required fields is absent, \<open>load_handoff\<close> raises the \<open>ValueError\<close> that names an
  absent field (the first one in the order of the list). If all six are present, it
  raises the \<open>ValueError\<close> of an invalid \<open>file_path\<close> when the value is empty or names no
  existing file, and returns the record when \<open>file_path\<close> names an existing file.
\<close>

theorem load_handoff_validates:
  assumes "os_path_exists w (JStr hp) = Inr True" and "json_load w hp = Inr (JObj d)"
  shows "((\<exists>k \<in> set required_fields. \<not> dict_has d k) \<longrightarrow>
            (\<exists>k \<in> set required_fields. \<not> dict_has d k
               \<and> find (\<lambda>k. \<not> dict_has d k) required_fields = Some k
               \<and> load_handoff w hp
                   = Inl (Raises (ValueError (''handoff.json missing required field: '' @ k)))))
     \<and> ((\<forall>k \<in> set required_fields. dict_has d k) \<longrightarrow>
           (\<not> truthy (dict_get d ''file_path'')
              \<or> os_path_exists w (dict_get d ''file_path'') = Inr False
            \<longrightarrow> load_handoff w hp = Inl (InvalidFilePath (dict_get d ''file_path'')))
         \<and> (truthy (dict_get d ''file_path'')
              \<and> os_path_exists w (dict_get d ''file_path'') = Inr True
            \<longrightarrow> load_handoff w hp = Inr (JObj d)))"
proof -
  have a: "(\<exists>k \<in> set required_fields. \<not> dict_has d k) \<longrightarrow>
            (\<exists>k \<in> set required_fields. \<not> dict_has d k
               \<and> find (\<lambda>k. \<not> dict_has d k) required_fields = Some k
               \<and> load_handoff w hp
                   = Inl (Raises (ValueError (''handoff.json missing required field: '' @ k))))"
    using load_handoff_names_missing_field [OF assms] by blast
  have b: "(\<forall>k \<in> set required_fields. dict_has d k) \<longrightarrow>
           (\<not> truthy (dict_get d ''file_path'')
              \<or> os_path_exists w (dict_get d ''file_path'') = Inr False
            \<longrightarrow> load_handoff w hp = Inl (InvalidFilePath (dict_get d ''file_path'')))
         \<and> (truthy (dict_get d ''file_path'')
              \<and> os_path_exists w (dict_get d ''file_path'') = Inr True
            \<longrightarrow> load_handoff w hp = Inr (JObj d))"
    using load_handoff_complete [OF assms] by auto
  from a b show ?thesis by blast
qed

lemma consumer_with_sel:
  "os_path_exists (consumer_with d) (JStr HANDOFF_PATH) = Inr True"
  "json_load (consumer_with d) HANDOFF_PATH = Inr (JObj d)"
  "os_path_exists (consumer_with d) (JStr ''/home/agent/sandbox/downloads/report.pdf'') = Inr True"
  "build_index (consumer_with d) v = None"
  by (simp_all add: consumer_with_def)

lemma record_without_sha256_fields:
  "dict_has record_without_sha256 ''file_path''"
  "dict_has record_without_sha256 ''file_name''"
  "dict_has record_without_sha256 ''source_url''"
  "\<not> dict_has record_without_sha256 ''sha256''"
  "dict_has record_without_sha256 ''bytes''"
  "dict_has record_without_sha256 ''downloaded_at_iso''"
  "dict_get record_without_sha256 ''file_path'' = JStr ''/home/agent/sandbox/downloads/report.pdf''"
  by (simp_all add: dict_has_def dict_get_def record_without_sha256_def)

lemma complete_record_fields:
  "\<forall>k \<in> set required_fields. dict_has complete_record k"
  "dict_get complete_record ''file_path'' = JStr ''/home/agent/sandbox/downloads/report.pdf''"
  by (simp_all add: dict_has_def dict_get_def complete_record_def record_without_sha256_def
      required_fields_def)

text \<open>
  The theorem on the two records of the scenarios: the record without \<open>sha256\<close> is
  rejected with the error that names \<open>sha256\<close>, the complete record is accepted.
\<close>

theorem load_handoff_validates_witness:
  "load_handoff (consumer_with record_without_sha256) HANDOFF_PATH
     = Inl (Raises (ValueError ''handoff.json missing required field: sha256''))
   \<and> load_handoff (consumer_with complete_record) HANDOFF_PATH = Inr (JObj complete_record)"
proof -
  have m: "\<exists>k \<in> set required_fields. \<not> dict_has record_without_sha256 k"
    by (simp add: required_fields_def record_without_sha256_fields)
  have f: "find (\<lambda>k. \<not> dict_has record_without_sha256 k) required_fields = Some ''sha256''"
    by (simp add: required_fields_def record_without_sha256_fields)
  from load_handoff_validates
    [OF consumer_with_sel(1) consumer_with_sel(2), of record_without_sha256] m f
  have a: "load_handoff (consumer_with record_without_sha256) HANDOFF_PATH
     = Inl (Raises (ValueError (''handoff.json missing required field: '' @ ''sha256'')))"
    by auto
  from load_handoff_validates [OF consumer_with_sel(1) consumer_with_sel(2), of complete_record]
    complete_record_fields consumer_with_sel(3)
  have b: "load_handoff (consumer_with complete_record) HANDOFF_PATH = Inr (JObj complete_record)"
    by simp
  from a b show ?thesis by simp
qed

text \<open>
  Claim C9. In phase 2 of \<open>main\<close>, once the handoff file exists and parses to a record,
  what happens is decided by \<open>index_document_from_handoff\<close> alone: the required fields
  are not checked and \<open>file_path\<close> is not tested for existence. A record that lacks
  \<open>sha256\<close> (or any required field other than \<open>file_path\<close>) and whose file indexes
  without error is handed to the query loop, although \<open>load_handoff\<close> rejects the same
  file with a missing-field error.
\<close>

theorem main_phase2_skips_validation:
  assumes "os_path_exists w (JStr HANDOFF_PATH) = Inr True"
    and "json_load w HANDOFF_PATH = Inr (JObj d)"
  shows "main_phase2 w =
       (case index_document_from_handoff w (JObj d) of Some e \<Rightarrow> caught e | None \<Rightarrow> QueryLoop)
     \<and> (dict_has d ''file_path'' \<and> build_index w (dict_get d ''file_path'') = None
          \<longrightarrow> main_phase2 w = QueryLoop)
     \<and> (\<not> dict_has d ''sha256''
          \<longrightarrow> (\<exists>k \<in> set required_fields. \<not> dict_has d k
                 \<and> load_handoff w HANDOFF_PATH
                     = Inl (Raises (ValueError (''handoff.json missing required field: '' @ k)))))"
proof -
  have a: "main_phase2 w =
       (case index_document_from_handoff w (JObj d) of Some e \<Rightarrow> caught e | None \<Rightarrow> QueryLoop)"
    using assms by (simp add: main_phase2_def)
  have b: "dict_has d ''file_path'' \<and> build_index w (dict_get d ''file_path'') = None
          \<longrightarrow> main_phase2 w = QueryLoop"
    by (simp add: a index_document_from_handoff_def getitem_present)
  have c: "\<not> dict_has d ''sha256''
          \<longrightarrow> (\<exists>k \<in> set required_fields. \<not> dict_has d k
                 \<and> load_handoff w HANDOFF_PATH
                     = Inl (Raises (ValueError (''handoff.json missing required field: '' @ k))))"
  proof
    assume "\<not> dict_has d ''sha256''"
    then have "\<exists>k \<in> set required_fields. \<not> dict_has d k"
      by (auto simp: required_fields_def)
    with load_handoff_names_missing_field [OF assms]
    show "\<exists>k \<in> set required_fields. \<not> dict_has d k
                 \<and> load_handoff w HANDOFF_PATH
                     = Inl (Raises (ValueError (''handoff.json missing required field: '' @ k)))"
      by blast
  qed
  from a b c show ?thesis by blast
qed

text \<open>
  The theorem on the record without \<open>sha256\<close>: phase 2 goes on to the query loop.
\<close>

theorem main_phase2_skips_validation_witness:
  "main_phase2 (consumer_with record_without_sha256) = QueryLoop
   \<and> \<not> dict_has record_without_sha256 ''sha256''"
proof -
  have h: "dict_has record_without_sha256 ''file_path''
      \<and> build_index (consumer_with record_without_sha256)
            (dict_get record_without_sha256 ''file_path'') = None"
    by (simp add: record_without_sha256_fields consumer_with_sel)
  from main_phase2_skips_validation
    [OF consumer_with_sel(1) consumer_with_sel(2), of record_without_sha256] h
  have "main_phase2 (consumer_with record_without_sha256) = QueryLoop" by blast
  then show ?thesis by (simp add: record_without_sha256_fields)
qed

end
